theory Spec2Isabelle
  imports Main "HOL-Library.Word"
begin

unbundle bit_operations_syntax

section \<open>The slowpoke reactor (\<^verbatim>\<open>src/loop.cc\<close>)\<close>

text \<open>
  The program is a single-threaded libevent reactor. Every callback runs to completion on
  the loop's thread, so a callback is a function from the program state to the program
  state, and the loop is the iteration of such functions over the events libevent
  delivers. What the operating system and the C++ library supply at run time is an
  argument of the callback that consumes it:
  \<^item> each call of \<^verbatim>\<open>gettimeofday\<close> is a \<open>timeval\<close> argument;
  \<^item> each draw from \<^verbatim>\<open>rand_engine\<close> is an \<open>int\<close> argument, the raw engine output, which
    \<open>uniform_int_distribution\<close> maps into its range;
  \<^item> the address returned by \<^verbatim>\<open>new Socket\<close>, the outcome of
    \<^verbatim>\<open>bufferevent_socket_new\<close>, the address returned by \<^verbatim>\<open>evtimer_new\<close> and the clock of
    the loop at \<^verbatim>\<open>evtimer_add\<close> are arguments of \<open>OnAccept\<close>.

  The C++ type \<^verbatim>\<open>int\<close> and the fields of \<^verbatim>\<open>timeval\<close> are modelled by the mathematical
  integers. Signed overflow is undefined in C++; runs in which the score reaches
  \<^verbatim>\<open>INT_MAX\<close> or the clock the end of \<^verbatim>\<open>time_t\<close> are outside the model. Allocation by
  \<^verbatim>\<open>new\<close> and \<^verbatim>\<open>evtimer_new\<close> is taken to succeed. Behaviour that C++ or libevent leave
  undefined and that the program can reach through a null or dangling pointer is the
  fault \<open>UndefinedBehaviour\<close>; a failed \<^verbatim>\<open>assert\<close> is the fault \<open>AssertionFailed\<close>. A fault
  ends the run.
\<close>

subsection \<open>Data\<close>

datatype fault = AssertionFailed | UndefinedBehaviour

text \<open>The preprocessor symbols the file tests: \<^verbatim>\<open>#ifdef DEBUG\<close> in \<^verbatim>\<open>OnRead\<close>, and
  \<^verbatim>\<open>NDEBUG\<close>, which turns \<^verbatim>\<open>assert\<close> into a no-op.\<close>

record build =
  DEBUG :: bool
  NDEBUG :: bool

record timeval =
  tv_sec :: int
  tv_usec :: int

text \<open>A point in time, or a duration, in microseconds.\<close>

definition usecs :: "timeval \<Rightarrow> int" where
  "usecs tv = tv_sec tv * 1000000 + tv_usec tv"

type_synonym ptr = nat

text \<open>A timer \<^verbatim>\<open>event\<close> of libevent that \<^verbatim>\<open>evtimer_add\<close> has made pending: the address
  \<^verbatim>\<open>evtimer_new\<close> returned for it, the timeout it was added with, and the clock of the loop
  when it was added. It is due when the clock of the loop has reached the sum of the two.
  A second \<^verbatim>\<open>evtimer_new\<close> gives an event at the address that call returns, and a second
  \<^verbatim>\<open>evtimer_add\<close> restarts the timeout from the clock of that call.\<close>

record event =
  ev_ptr :: ptr
  ev_timeout :: timeval
  ev_added :: timeval

definition due :: "event \<Rightarrow> timeval \<Rightarrow> bool" where
  "due ev now \<longleftrightarrow> usecs (ev_added ev) + usecs (ev_timeout ev) \<le> usecs now"

text \<open>A \<^verbatim>\<open>bufferevent\<close>: the descriptor it wraps, the bytes queued on its output
  \<^verbatim>\<open>evbuffer\<close>, and whether \<^verbatim>\<open>bufferevent_setcb\<close> and \<^verbatim>\<open>bufferevent_enable\<close> have installed
  \<^verbatim>\<open>OnRead\<close> and \<^verbatim>\<open>OnEvent\<close> on it.\<close>

record bufferevent =
  bev_fd :: int
  bev_output :: string
  bev_enabled :: bool

text \<open>\<^verbatim>\<open>class Socket\<close>. The back pointer \<^verbatim>\<open>state_\<close> always points to the one
  \<^verbatim>\<open>GlobalState\<close> of \<^verbatim>\<open>RunLoop\<close>, which the program state below holds. The members
  \<^verbatim>\<open>next_\<close> and \<^verbatim>\<open>buf_\<close> are the fields \<open>sock_next\<close> and \<open>sock_buf\<close>; a null \<^verbatim>\<open>buf_\<close> is
  \<open>None\<close>.\<close>

record Socket =
  sock_next :: timeval
  sock_buf :: "bufferevent option"

text \<open>\<^verbatim>\<open>struct GlobalState\<close>. \<^verbatim>\<open>reset_timer\<close> points to the timer event, which is pending
  from \<open>OnAccept\<close> until it is freed; \<^verbatim>\<open>nullptr\<close> is \<open>None\<close>. The \<^verbatim>\<open>unordered_set\<close> of socket pointers is a list
  without repetitions whose head is what \<^verbatim>\<open>begin()\<close> returns; the order of the list stands
  for the unspecified iteration order of the container.\<close>

record GlobalState =
  max_seconds :: int
  max_before_reset :: int
  score :: int
  max_score :: int
  reset_timer :: "event option"
  sockets :: "ptr list"

text \<open>The program state: the \<^verbatim>\<open>GlobalState\<close> on the stack of \<^verbatim>\<open>RunLoop\<close>, the \<^verbatim>\<open>Socket\<close>
  objects on the free store, the characters written to \<^verbatim>\<open>std::cout\<close>, and whether
  \<^verbatim>\<open>event_base_loopbreak\<close> has been called.\<close>

record world =
  state :: GlobalState
  heap :: "ptr \<Rightarrow> Socket option"
  cout :: string
  loop_break :: bool

subsection \<open>Library functions the program calls\<close>

text \<open>Decimal output of an \<^verbatim>\<open>int\<close>, as \<^verbatim>\<open>operator<<\<close> and the conversion \<^verbatim>\<open>%d\<close> produce it,
  and the conversion \<^verbatim>\<open>%06d\<close>: at least six characters, padded with zeros after the sign.\<close>

definition digit_char :: "nat \<Rightarrow> char" where
  "digit_char d = ''0123456789'' ! d"

fun dec :: "nat \<Rightarrow> string" where
  "dec n = (if n < 10 then [digit_char n] else dec (n div 10) @ [digit_char (n mod 10)])"

declare dec.simps [simp del]

definition printf_d :: "int \<Rightarrow> string" where
  "printf_d i = (if i < 0 then CHR ''-'' # dec (nat (- i)) else dec (nat i))"

definition printf_06d :: "int \<Rightarrow> string" where
  "printf_06d i =
     (let ds = dec (nat \<bar>i\<bar>); sign = (if i < 0 then ''-'' else '''')
      in sign @ replicate (6 - length sign - length ds) CHR ''0'' @ ds)"

text \<open>\<^verbatim>\<open>std::uniform_int_distribution<int>(a, b)\<close> applied to the engine: a value of the
  closed range from \<open>a\<close> to \<open>b\<close>, determined by the raw engine output \<open>g\<close>. Every value of
  the range is the image of some \<open>g\<close> (lemma \<open>uniform_int_distribution_onto\<close>), so the
  callbacks range over all draws the library can make. The library requires \<open>a \<le> b\<close>; the
  caller below checks it.\<close>

definition uniform_int_distribution :: "int \<Rightarrow> int \<Rightarrow> int \<Rightarrow> int" where
  "uniform_int_distribution a b g = a + g mod (b - a + 1)"

text \<open>The flags of a bufferevent's event callback that the program tests or that libevent
  sets on the end of the stream, with the values of libevent 2
  (\<^verbatim>\<open>event2/bufferevent.h\<close>); \<^verbatim>\<open>short\<close> is 16 bits wide.\<close>

definition BEV_EVENT_READING :: "16 word" where
  "BEV_EVENT_READING = 0x01"

definition BEV_EVENT_EOF :: "16 word" where
  "BEV_EVENT_EOF = 0x10"

definition BEV_EVENT_ERROR :: "16 word" where
  "BEV_EVENT_ERROR = 0x20"

subsection \<open>\<^verbatim>\<open>GlobalState\<close>\<close>

definition GlobalState_ctor :: "int \<Rightarrow> int \<Rightarrow> GlobalState" where
  "GlobalState_ctor max_s max_br =
     \<lparr>max_seconds = max_s, max_before_reset = max_br, score = 0, max_score = 0,
      reset_timer = None, sockets = []\<rparr>"

definition IncreaseScore :: "GlobalState \<Rightarrow> GlobalState" where
  "IncreaseScore g =
     (let g1 = g\<lparr>score := score g + 1\<rparr>
      in g1\<lparr>max_score := max (score g1) (max_score g1)\<rparr>)"

definition ResetAndPrintScore :: "world \<Rightarrow> world" where
  "ResetAndPrintScore w =
     (let g = state w;
          w1 = w\<lparr>cout := cout w @ printf_d (score g) @ '' / '' @ printf_d (max_score g) @ [CHR 0x0A]\<rparr>
      in w1\<lparr>state := g\<lparr>score := 0\<rparr>\<rparr>)"

subsection \<open>\<^verbatim>\<open>Socket\<close>\<close>

text \<open>\<^verbatim>\<open>bufferevent_socket_new\<close>: a fresh bufferevent on the descriptor, or null when the
  library cannot allocate one.\<close>

definition bufferevent_socket_new :: "bool \<Rightarrow> int \<Rightarrow> bufferevent option" where
  "bufferevent_socket_new ok fd =
     (if ok then Some \<lparr>bev_fd = fd, bev_output = [], bev_enabled = False\<rparr> else None)"

text \<open>The constructor leaves \<^verbatim>\<open>next_\<close> indeterminate; \<open>UpdateTimeout\<close> overwrites both of its
  fields before anything reads them, and the model starts it at zero.\<close>

definition Socket_ctor :: "bool \<Rightarrow> int \<Rightarrow> Socket" where
  "Socket_ctor ok fd = \<lparr>sock_next = \<lparr>tv_sec = 0, tv_usec = 0\<rparr>, sock_buf = bufferevent_socket_new ok fd\<rparr>"

text \<open>The destructor \<^verbatim>\<open>~Socket\<close>, run by \<^verbatim>\<open>delete\<close> on the pointer \<open>this\<close>: it erases the
  pointer from the set and frees the bufferevent with the object. Deleting a pointer to no
  live object, and \<^verbatim>\<open>bufferevent_free\<close> of a null pointer, are undefined.\<close>

definition Socket_dtor :: "world \<Rightarrow> ptr \<Rightarrow> fault + world" where
  "Socket_dtor w this =
     (case heap w this of
        None \<Rightarrow> Inl UndefinedBehaviour
      | Some sock \<Rightarrow>
          (case sock_buf sock of
             None \<Rightarrow> Inl UndefinedBehaviour
           | Some bev \<Rightarrow>
               Inr (w\<lparr>state := (state w)\<lparr>sockets := removeAll this (sockets (state w))\<rparr>,
                      heap := (heap w)(this := None)\<rparr>)))"

definition IsReady :: "Socket \<Rightarrow> timeval \<Rightarrow> bool" where
  "IsReady sock tv =
     (if tv_sec tv = tv_sec (sock_next sock) then tv_usec tv \<ge> tv_usec (sock_next sock)
      else tv_sec tv > tv_sec (sock_next sock))"

text \<open>The \<^verbatim>\<open>while\<close> loop of \<^verbatim>\<open>UpdateTimeout\<close>, which carries whole seconds out of
  \<^verbatim>\<open>tv_usec\<close>.\<close>

function UpdateTimeout_carry :: "timeval \<Rightarrow> timeval" where
  "UpdateTimeout_carry tv =
     (if tv_usec tv \<ge> 1000000
      then UpdateTimeout_carry (tv\<lparr>tv_usec := tv_usec tv - 1000000, tv_sec := tv_sec tv + 1\<rparr>)
      else tv)"
  by pat_completeness auto
termination
  by (relation "measure (\<lambda>tv. nat (tv_usec tv))") auto

declare UpdateTimeout_carry.simps [simp del]

definition evbuffer_add_printf :: "bufferevent \<Rightarrow> string \<Rightarrow> bufferevent" where
  "evbuffer_add_printf bev s = bev\<lparr>bev_output := bev_output bev @ s\<rparr>"

text \<open>The format \<^verbatim>\<open>"%d.%06d %d %d\n"\<close> applied to its four arguments.\<close>

definition status_line :: "int \<Rightarrow> int \<Rightarrow> int \<Rightarrow> int \<Rightarrow> string" where
  "status_line sec usec sc msc =
     printf_d sec @ ''.'' @ printf_06d usec @ '' '' @ printf_d sc @ '' '' @ printf_d msc @ [CHR 0x0A]"

text \<open>\<^verbatim>\<open>Socket::UpdateTimeout\<close> on the object at \<open>this\<close>. \<open>tv\<close> is what \<^verbatim>\<open>gettimeofday\<close> stores,
  \<open>g_sec\<close> and \<open>g_usec\<close> are the two engine outputs. A distribution whose upper bound is
  below its lower bound, and \<^verbatim>\<open>bufferevent_get_output\<close> of a null pointer, are undefined.\<close>

definition UpdateTimeout :: "world \<Rightarrow> ptr \<Rightarrow> timeval \<Rightarrow> int \<Rightarrow> int \<Rightarrow> fault + world" where
  "UpdateTimeout w this tv g_sec g_usec =
     (case heap w this of
        None \<Rightarrow> Inl UndefinedBehaviour
      | Some sock \<Rightarrow>
          if max_seconds (state w) - 1 < 0 then Inl UndefinedBehaviour
          else
            let sec = uniform_int_distribution 0 (max_seconds (state w) - 1) g_sec;
                usec = uniform_int_distribution 0 999999 g_usec;
                n1 = UpdateTimeout_carry (tv\<lparr>tv_usec := tv_usec tv + usec\<rparr>);
                n2 = n1\<lparr>tv_sec := tv_sec n1 + sec\<rparr>
            in (case sock_buf sock of
                  None \<Rightarrow> Inl UndefinedBehaviour
                | Some bev \<Rightarrow>
                    Inr (w\<lparr>heap := (heap w)(this \<mapsto>
                          sock\<lparr>sock_next := n2,
                               sock_buf := Some (evbuffer_add_printf bev
                                 (status_line sec usec (score (state w)) (max_score (state w))))\<rparr>)\<rparr>)))"

text \<open>\<^verbatim>\<open>Socket::Start\<close>. \<^verbatim>\<open>unordered_set::insert\<close> adds the pointer unless it is there.\<close>

definition Start :: "build \<Rightarrow> world \<Rightarrow> ptr \<Rightarrow> timeval \<Rightarrow> int \<Rightarrow> int \<Rightarrow> fault + world" where
  "Start b w this tv g_sec g_usec =
     (case heap w this of
        None \<Rightarrow> Inl UndefinedBehaviour
      | Some sock \<Rightarrow>
          if \<not> NDEBUG b \<and> sock_buf sock = None then Inl AssertionFailed
          else
            (case UpdateTimeout w this tv g_sec g_usec of
               Inl f \<Rightarrow> Inl f
             | Inr w1 \<Rightarrow>
                 (case heap w1 this of
                    None \<Rightarrow> Inl UndefinedBehaviour
                  | Some sock1 \<Rightarrow>
                      Inr (w1\<lparr>heap := (heap w1)(this \<mapsto>
                                sock1\<lparr>sock_buf := map_option (\<lambda>bev. bev\<lparr>bev_enabled := True\<rparr>) (sock_buf sock1)\<rparr>),
                              state := (state w1)\<lparr>sockets := List.insert this (sockets (state w1))\<rparr>\<rparr>))))"

subsection \<open>The reset coordinator\<close>

text \<open>The \<^verbatim>\<open>while\<close> loop of \<^verbatim>\<open>CloseAllSockets\<close>: as long as the set is not empty, delete the
  object \<^verbatim>\<open>begin()\<close> points to. The loop ends because a destructor that returns has erased
  its own pointer, which was in the set.\<close>

function CloseAllSockets_loop :: "world \<Rightarrow> fault + world" where
  "CloseAllSockets_loop w =
     (if sockets (state w) \<noteq> []
      then (case Socket_dtor w (hd (sockets (state w))) of
              Inl f \<Rightarrow> Inl f
            | Inr w1 \<Rightarrow> CloseAllSockets_loop w1)
      else Inr w)"
  by pat_completeness auto
termination
proof (relation "measure (\<lambda>w. length (sockets (state w)))")
  show "wf (measure (\<lambda>w. length (sockets (state w))))"
    by simp
next
  fix w :: world and w1 :: world
  assume ne: "sockets (state w) \<noteq> []"
    and d: "Socket_dtor w (hd (sockets (state w))) = Inr w1"
  from d have "sockets (state w1) = removeAll (hd (sockets (state w))) (sockets (state w))"
    by (auto simp: Socket_dtor_def split: option.splits)
  moreover from ne have "hd (sockets (state w)) \<in> set (sockets (state w))"
    by simp
  ultimately have "length (sockets (state w1)) < length (sockets (state w))"
    by (simp add: length_removeAll_less)
  then show "(w1, w) \<in> measure (\<lambda>w. length (sockets (state w)))"
    by simp
qed

declare CloseAllSockets_loop.simps [simp del]

text \<open>\<^verbatim>\<open>CloseAllSockets\<close>. \<^verbatim>\<open>event_free\<close> of a null pointer is undefined.\<close>

definition CloseAllSockets :: "world \<Rightarrow> fault + world" where
  "CloseAllSockets w =
     (case CloseAllSockets_loop w of
        Inl f \<Rightarrow> Inl f
      | Inr w1 \<Rightarrow>
          let w2 = ResetAndPrintScore w1
          in (case reset_timer (state w2) of
                None \<Rightarrow> Inl UndefinedBehaviour
              | Some ev \<Rightarrow> Inr (w2\<lparr>state := (state w2)\<lparr>reset_timer := None\<rparr>\<rparr>)))"

definition Reset :: "world \<Rightarrow> fault + world" where
  "Reset w = CloseAllSockets w"

subsection \<open>The callbacks\<close>

text \<open>\<^verbatim>\<open>OnRead\<close> for the socket at \<open>sock\<close>. \<open>input\<close> is the content of the bufferevent's
  input buffer, of which \<^verbatim>\<open>bufferevent_read\<close> copies at most 8192 bytes into \<^verbatim>\<open>buf\<close>; \<open>tv\<close> is
  the clock \<open>IsReady\<close> reads, and \<open>tv'\<close>, \<open>g_sec\<close>, \<open>g_usec\<close> are the clock and the draws of
  \<open>UpdateTimeout\<close>. With \<^verbatim>\<open>DEBUG\<close>, the program writes a terminator behind the bytes read,
  which is outside the array when all 8192 bytes were filled, and \<^verbatim>\<open>strstr\<close> looks for an
  \<^verbatim>\<open>x\<close> before the first zero byte.\<close>

definition OnRead ::
    "build \<Rightarrow> world \<Rightarrow> ptr \<Rightarrow> string \<Rightarrow> timeval \<Rightarrow> timeval \<Rightarrow> int \<Rightarrow> int \<Rightarrow> fault + world" where
  "OnRead b w sock input tv tv' g_sec g_usec =
     (case heap w sock of
        None \<Rightarrow> Inl UndefinedBehaviour
      | Some s \<Rightarrow>
          let data = take 8192 input;
              bytes_read = length data;
              evaluate =
                (if IsReady s tv
                 then UpdateTimeout (w\<lparr>state := IncreaseScore (state w)\<rparr>) sock tv' g_sec g_usec
                 else CloseAllSockets w)
          in if DEBUG b
             then (if bytes_read \<ge> 8192 then Inl UndefinedBehaviour
                   else if CHR ''x'' \<in> set (takeWhile (\<lambda>c. c \<noteq> CHR 0x00) data)
                   then (case CloseAllSockets w of
                           Inl f \<Rightarrow> Inl f
                         | Inr w1 \<Rightarrow> Inr (w1\<lparr>loop_break := True\<rparr>))
                   else evaluate)
             else if \<not> NDEBUG b \<and> \<not> bytes_read > 0 then Inl AssertionFailed
             else evaluate)"

definition OnEvent :: "world \<Rightarrow> 16 word \<Rightarrow> ptr \<Rightarrow> fault + world" where
  "OnEvent w events sock =
     (if events AND (BEV_EVENT_ERROR OR BEV_EVENT_EOF) \<noteq> 0 then Socket_dtor w sock
      else Inr w)"

text \<open>\<^verbatim>\<open>OnAccept\<close>. \<open>p\<close> is the address \<^verbatim>\<open>new\<close> returns and \<open>ok\<close> tells whether
  \<^verbatim>\<open>bufferevent_socket_new\<close> succeeds. \<open>ep\<close> is the address \<^verbatim>\<open>evtimer_new\<close> returns and \<open>lt\<close> the
  clock of the loop at \<^verbatim>\<open>evtimer_add\<close>; the callback consumes both only when it finds
  \<^verbatim>\<open>reset_timer\<close> null.\<close>

definition OnAccept ::
    "build \<Rightarrow> world \<Rightarrow> int \<Rightarrow> ptr \<Rightarrow> bool \<Rightarrow> timeval \<Rightarrow> int \<Rightarrow> int \<Rightarrow> ptr \<Rightarrow> timeval \<Rightarrow>
      fault + world" where
  "OnAccept b w fd p ok tv g_sec g_usec ep lt =
     (let w1 = (if reset_timer (state w) = None
                then w\<lparr>state := (state w)\<lparr>reset_timer :=
                       Some \<lparr>ev_ptr = ep,
                             ev_timeout = \<lparr>tv_sec = max_before_reset (state w), tv_usec = 0\<rparr>,
                             ev_added = lt\<rparr>\<rparr>\<rparr>
                else w);
          w2 = w1\<lparr>heap := (heap w1)(p \<mapsto> Socket_ctor ok fd)\<rparr>
      in Start b w2 p tv g_sec g_usec)"

subsection \<open>The event loop\<close>

text \<open>What \<^verbatim>\<open>event_base_dispatch\<close> finds: a connection on the listener; a socket of a
  bufferevent that is readable, with the bytes the read of it returns, where no bytes are
  the end of the stream; flags on a bufferevent; or the clock of the loop, at which the
  timer may be due.\<close>

datatype loop_event =
    Accepted int ptr bool timeval int int ptr timeval
  | Readable ptr string timeval timeval int int
  | Flagged ptr "16 word"
  | TimerExpired timeval

text \<open>One iteration of the loop. libevent runs a callback only for an object that exists:
  a bufferevent that has not been freed, the timer while it is pending and once it is
  due; and \<^verbatim>\<open>new\<close> never returns the address of a live object. An event that names anything
  else is no event of the program and leaves the state as it is, as does every event
  after \<^verbatim>\<open>event_base_loopbreak\<close>.

  A bufferevent runs its read callback only after a read that returned at least one byte,
  which is what \<^verbatim>\<open>assert(bytes_read > 0)\<close> in \<^verbatim>\<open>OnRead\<close> relies on. A read of zero bytes is the
  end of the stream: libevent reports it to the event callback, with the flags
  \<^verbatim>\<open>BEV_EVENT_READING | BEV_EVENT_EOF\<close>.\<close>

definition step :: "build \<Rightarrow> world \<Rightarrow> loop_event \<Rightarrow> fault + world" where
  "step b w e =
     (if loop_break w then Inr w
      else
        (case e of
           Accepted fd p ok tv g_sec g_usec ep lt \<Rightarrow>
             if heap w p = None then OnAccept b w fd p ok tv g_sec g_usec ep lt else Inr w
         | Readable sock input tv tv' g_sec g_usec \<Rightarrow>
             if heap w sock \<noteq> None
             then (if input = []
                   then OnEvent w (BEV_EVENT_READING OR BEV_EVENT_EOF) sock
                   else OnRead b w sock input tv tv' g_sec g_usec)
             else Inr w
         | Flagged sock events \<Rightarrow>
             if heap w sock \<noteq> None then OnEvent w events sock else Inr w
         | TimerExpired now \<Rightarrow>
             (case reset_timer (state w) of
                None \<Rightarrow> Inr w
              | Some ev \<Rightarrow> if due ev now then Reset w else Inr w)))"

fun run :: "build \<Rightarrow> world \<Rightarrow> loop_event list \<Rightarrow> fault + world" where
  "run b w [] = Inr w"
| "run b w (e # es) = (case step b w e of Inl f \<Rightarrow> Inl f | Inr w1 \<Rightarrow> run b w1 es)"

text \<open>The state in which \<^verbatim>\<open>RunLoop\<close> enters \<^verbatim>\<open>event_base_dispatch\<close>.\<close>

definition RunLoop :: "int \<Rightarrow> int \<Rightarrow> world" where
  "RunLoop timeout max_timeout =
     \<lparr>state = GlobalState_ctor timeout max_timeout, heap = (\<lambda>p. None), cout = [],
      loop_break = False\<rparr>"

section \<open>Notions used to state the properties\<close>

text \<open>A live connection: a \<open>Socket\<close> object on the free store that owns a bufferevent.\<close>

definition live :: "world \<Rightarrow> ptr \<Rightarrow> bool" where
  "live w p = (case heap w p of None \<Rightarrow> False | Some s \<Rightarrow> sock_buf s \<noteq> None)"

text \<open>The pointers the loop of \<open>CloseAllSockets\<close> passes to \<^verbatim>\<open>delete\<close>, in the order of the
  iterations: the same loop as \<open>CloseAllSockets_loop\<close>, recording \<^verbatim>\<open>*it\<close> instead of the
  state.\<close>

function CloseAllSockets_deleted :: "world \<Rightarrow> ptr list" where
  "CloseAllSockets_deleted w =
     (if sockets (state w) \<noteq> []
      then hd (sockets (state w)) #
           (case Socket_dtor w (hd (sockets (state w))) of
              Inl f \<Rightarrow> []
            | Inr w1 \<Rightarrow> CloseAllSockets_deleted w1)
      else [])"
  by pat_completeness auto
termination
proof (relation "measure (\<lambda>w. length (sockets (state w)))")
  show "wf (measure (\<lambda>w. length (sockets (state w))))"
    by simp
next
  fix w :: world and w1 :: world
  assume ne: "sockets (state w) \<noteq> []"
    and d: "Socket_dtor w (hd (sockets (state w))) = Inr w1"
  from d have "sockets (state w1) = removeAll (hd (sockets (state w))) (sockets (state w))"
    by (auto simp: Socket_dtor_def split: option.splits)
  moreover from ne have "hd (sockets (state w)) \<in> set (sockets (state w))"
    by simp
  ultimately have "length (sockets (state w1)) < length (sockets (state w))"
    by (simp add: length_removeAll_less)
  then show "(w1, w) \<in> measure (\<lambda>w. length (sockets (state w)))"
    by simp
qed

declare CloseAllSockets_deleted.simps [simp del]

text \<open>The states the loop can be in are consistent: the set holds each pointer once and
  holds exactly the live objects, every object owns a bufferevent, the timer is allocated
  while a connection exists, the score lies between zero and the maximum, and after
  \<^verbatim>\<open>event_base_loopbreak\<close> nothing is left.\<close>

definition consistent :: "world \<Rightarrow> bool" where
  "consistent w \<longleftrightarrow>
     distinct (sockets (state w)) \<and>
     (\<forall>p. p \<in> set (sockets (state w)) \<longleftrightarrow> heap w p \<noteq> None) \<and>
     (\<forall>p s. heap w p = Some s \<longrightarrow> sock_buf s \<noteq> None) \<and>
     (sockets (state w) \<noteq> [] \<longrightarrow> reset_timer (state w) \<noteq> None) \<and>
     0 \<le> score (state w) \<and> score (state w) \<le> max_score (state w) \<and>
     (loop_break w \<longrightarrow> sockets (state w) = [] \<and> reset_timer (state w) = None)"

text \<open>Whether \<open>OnRead\<close> gets as far as the test of the deadline with the bytes of the
  input buffer. With \<^verbatim>\<open>DEBUG\<close> the bytes read must leave room for the terminator and hold no
  \<^verbatim>\<open>x\<close> before the first zero byte; without \<^verbatim>\<open>DEBUG\<close> the assertion on the number of bytes
  must hold or be compiled out.\<close>

definition evaluated :: "build \<Rightarrow> string \<Rightarrow> bool" where
  "evaluated b input =
     (if DEBUG b
      then length (take 8192 input) < 8192 \<and>
           CHR ''x'' \<notin> set (takeWhile (\<lambda>c. c \<noteq> CHR 0x00) (take 8192 input))
      else NDEBUG b \<or> input \<noteq> [])"

text \<open>Whether the callback that \<open>step\<close> runs for the event calls \<open>CloseAllSockets\<close>: the
  timer's callback \<open>Reset\<close> always does, \<open>OnRead\<close> does on a read of bytes before the
  deadline and, with \<^verbatim>\<open>DEBUG\<close>, on an \<^verbatim>\<open>x\<close>.\<close>

definition resets :: "build \<Rightarrow> world \<Rightarrow> loop_event \<Rightarrow> bool" where
  "resets b w e =
     (\<not> loop_break w \<and>
      (case e of
         TimerExpired now \<Rightarrow>
           (case reset_timer (state w) of None \<Rightarrow> False | Some ev \<Rightarrow> due ev now)
       | Readable sock input tv tv' g_sec g_usec \<Rightarrow>
           (case heap w sock of
              None \<Rightarrow> False
            | Some s \<Rightarrow>
                input \<noteq> [] \<and>
                (if DEBUG b
                 then length (take 8192 input) < 8192 \<and>
                      (CHR ''x'' \<in> set (takeWhile (\<lambda>c. c \<noteq> CHR 0x00) (take 8192 input)) \<or>
                       \<not> IsReady s tv)
                 else (NDEBUG b \<or> input \<noteq> []) \<and> \<not> IsReady s tv))
       | Accepted fd p ok tv g_sec g_usec ep lt \<Rightarrow> False
       | Flagged sock events \<Rightarrow> False))"

text \<open>Whether \<open>step\<close> runs \<open>OnAccept\<close> for the event.\<close>

definition accepts :: "world \<Rightarrow> loop_event \<Rightarrow> bool" where
  "accepts w e =
     (\<not> loop_break w \<and>
      (case e of
         Accepted fd p ok tv g_sec g_usec ep lt \<Rightarrow> heap w p = None
       | Readable sock input tv tv' g_sec g_usec \<Rightarrow> False
       | Flagged sock events \<Rightarrow> False
       | TimerExpired now \<Rightarrow> False))"

text \<open>A run in which no callback calls \<open>CloseAllSockets\<close>: a part of one epoch.\<close>

fun quiet :: "build \<Rightarrow> world \<Rightarrow> loop_event list \<Rightarrow> bool" where
  "quiet b w [] = True"
| "quiet b w (e # es) =
     (\<not> resets b w e \<and> (case step b w e of Inl f \<Rightarrow> True | Inr w1 \<Rightarrow> quiet b w1 es))"

text \<open>The specification's account of the reset timer, computed from the history of the
  run and not from the timer handle: \<open>a\<close> tells whether a connection has been accepted
  since the last reset, or since the start when there was none. A reset makes it false,
  an accepted connection makes it true, and nothing else changes it.\<close>

fun accepted_since_reset :: "build \<Rightarrow> world \<Rightarrow> bool \<Rightarrow> loop_event list \<Rightarrow> bool" where
  "accepted_since_reset b w a [] = a"
| "accepted_since_reset b w a (e # es) =
     (case step b w e of
        Inl f \<Rightarrow> a
      | Inr w1 \<Rightarrow>
          accepted_since_reset b w1
            (if resets b w e then False else if accepts w e then True else a) es)"

text \<open>What a run leaves behind, restricted to the objects at the given addresses, so that
  two outcomes can be compared by computation.\<close>

definition observe ::
    "ptr list \<Rightarrow> fault + world \<Rightarrow> fault + GlobalState \<times> Socket option list \<times> string \<times> bool" where
  "observe ps r =
     (case r of
        Inl f \<Rightarrow> Inl f
      | Inr w \<Rightarrow> Inr (state w, map (heap w) ps, cout w, loop_break w))"

subsection \<open>An example run\<close>

text \<open>A run of the build without \<^verbatim>\<open>DEBUG\<close> and \<^verbatim>\<open>NDEBUG\<close>, started with
  \<open>RunLoop 5 60\<close>: a client connects at 10 s and ticks once, the timer is due at 70 s, and
  two clients connect at 100 s and 101 s. Every draw is 0. It ends in the state
  \<open>two_connections\<close> (lemma \<open>run_history\<close>): two connections with the deadlines 100 s and
  101 s, no tick in the running epoch, a maximum of 1 from the epoch before, and the
  timer that the first of the two connections armed at 100 s.\<close>

definition history :: "loop_event list" where
  "history =
     [Accepted 7 1 True \<lparr>tv_sec = 10, tv_usec = 0\<rparr> 0 0 50 \<lparr>tv_sec = 10, tv_usec = 0\<rparr>,
      Readable 1 ''a'' \<lparr>tv_sec = 11, tv_usec = 0\<rparr> \<lparr>tv_sec = 11, tv_usec = 0\<rparr> 0 0,
      TimerExpired \<lparr>tv_sec = 70, tv_usec = 0\<rparr>,
      Accepted 7 1 True \<lparr>tv_sec = 100, tv_usec = 0\<rparr> 0 0 50 \<lparr>tv_sec = 100, tv_usec = 0\<rparr>,
      Accepted 8 2 True \<lparr>tv_sec = 101, tv_usec = 0\<rparr> 0 0 51 \<lparr>tv_sec = 101, tv_usec = 0\<rparr>]"

definition two_connections :: world where
  "two_connections =
     \<lparr>state = \<lparr>max_seconds = 5, max_before_reset = 60, score = 0, max_score = 1,
        reset_timer =
            Some \<lparr>ev_ptr = 50,
                  ev_timeout = \<lparr>tv_sec = 60, tv_usec = 0\<rparr>,
                  ev_added = \<lparr>tv_sec = 100, tv_usec = 0\<rparr>\<rparr>, sockets = [2, 1]\<rparr>,
      heap = (\<lambda>p. None)
        (1 \<mapsto> \<lparr>sock_next = \<lparr>tv_sec = 100, tv_usec = 0\<rparr>,
                sock_buf = Some \<lparr>bev_fd = 7, bev_output = ''0.000000 0 1'' @ [CHR 0x0A],
                                 bev_enabled = True\<rparr>\<rparr>,
         2 \<mapsto> \<lparr>sock_next = \<lparr>tv_sec = 101, tv_usec = 0\<rparr>,
                sock_buf = Some \<lparr>bev_fd = 8, bev_output = ''0.000000 0 1'' @ [CHR 0x0A],
                                 bev_enabled = True\<rparr>\<rparr>),
      cout = ''1 / 1'' @ [CHR 0x0A], loop_break = False\<rparr>"

section \<open>Auxiliary facts\<close>

subsection \<open>Decimal output, draws and time\<close>

lemma digit_char_not_newline: "d < 10 \<Longrightarrow> digit_char d \<noteq> CHR 0x0A"
proof -
  assume "d < 10"
  then have "d \<in> {0, 1, 2, 3, 4, 5, 6, 7, 8, 9}"
    by auto
  then show ?thesis
    by (auto simp: digit_char_def)
qed

lemma dec_no_newline: "CHR 0x0A \<notin> set (dec n)"
proof (induction n rule: dec.induct)
  case (1 n)
  show ?case
  proof (cases "n < 10")
    case True
    then show ?thesis
      using digit_char_not_newline [of n] by (simp add: dec.simps [of n])
  next
    case False
    moreover have "n mod 10 < 10" by simp
    ultimately show ?thesis
      using 1 digit_char_not_newline [of "n mod 10"] by (simp add: dec.simps [of n])
  qed
qed

lemma length_dec_le: "n < 10 ^ k \<Longrightarrow> 0 < k \<Longrightarrow> length (dec n) \<le> k"
proof (induction n arbitrary: k rule: dec.induct)
  case (1 n)
  show ?case
  proof (cases "n < 10")
    case True
    then show ?thesis using 1(3) by (simp add: dec.simps [of n])
  next
    case False
    then obtain j where k: "k = Suc j" and j: "0 < j"
      using 1(2,3) by (cases k; cases "k - 1") auto
    from 1(2) k have "n div 10 < 10 ^ j"
      by (simp add: less_mult_imp_div_less mult.commute)
    with 1(1) [OF False this j] False k show ?thesis
      by (simp add: dec.simps [of n])
  qed
qed

lemma printf_d_nonneg: "0 \<le> i \<Longrightarrow> printf_d i = dec (nat i)"
  by (simp add: printf_d_def)

lemma printf_06d_usec:
  assumes "0 \<le> i" "i < 1000000"
  shows "printf_06d i = replicate (6 - length (dec (nat i))) CHR ''0'' @ dec (nat i)"
    and "length (printf_06d i) = 6"
proof -
  have "nat i < 10 ^ 6" using assms by simp
  then have "length (dec (nat i)) \<le> 6"
    by (rule length_dec_le) simp
  with assms show "printf_06d i = replicate (6 - length (dec (nat i))) CHR ''0'' @ dec (nat i)"
    and "length (printf_06d i) = 6"
    by (simp_all add: printf_06d_def Let_def)
qed

lemma uniform_int_distribution_range:
  "a \<le> b \<Longrightarrow> a \<le> uniform_int_distribution a b g \<and> uniform_int_distribution a b g \<le> b"
proof -
  assume "a \<le> b"
  then have pos: "0 < b - a + 1" by simp
  have "0 \<le> g mod (b - a + 1)"
    by (rule pos_mod_sign [OF pos])
  moreover have "g mod (b - a + 1) < b - a + 1"
    by (rule pos_mod_bound [OF pos])
  ultimately show ?thesis
    unfolding uniform_int_distribution_def by linarith
qed

lemma uniform_int_distribution_onto:
  "a \<le> v \<Longrightarrow> v \<le> b \<Longrightarrow> uniform_int_distribution a b (v - a) = v"
  by (simp add: uniform_int_distribution_def)

lemma UpdateTimeout_carry_normal:
  "0 \<le> tv_usec tv \<Longrightarrow>
     usecs (UpdateTimeout_carry tv) = usecs tv \<and>
     0 \<le> tv_usec (UpdateTimeout_carry tv) \<and> tv_usec (UpdateTimeout_carry tv) < 1000000"
proof (induction tv rule: UpdateTimeout_carry.induct)
  case (1 tv)
  show ?case
  proof (cases "tv_usec tv \<ge> 1000000")
    case True
    with 1 show ?thesis
      by (simp add: UpdateTimeout_carry.simps [of tv] usecs_def)
  next
    case False
    with 1(2) show ?thesis
      by (simp add: UpdateTimeout_carry.simps [of tv])
  qed
qed

lemma IsReady_usecs:
  assumes "0 \<le> tv_usec tv" "tv_usec tv < 1000000"
    and "0 \<le> tv_usec (sock_next s)" "tv_usec (sock_next s) < 1000000"
  shows "IsReady s tv \<longleftrightarrow> usecs (sock_next s) \<le> usecs tv"
  using assms by (auto simp: IsReady_def usecs_def)

subsection \<open>Destructor and teardown loop\<close>

lemma Socket_dtor_live:
  "live w p \<Longrightarrow>
     Socket_dtor w p =
       Inr (w\<lparr>state := (state w)\<lparr>sockets := removeAll p (sockets (state w))\<rparr>,
              heap := (heap w)(p := None)\<rparr>)"
  by (auto simp: live_def Socket_dtor_def split: option.splits)

lemma Socket_dtor_Inr:
  "Socket_dtor w p = Inr w1 \<Longrightarrow>
     live w p \<and>
     w1 = w\<lparr>state := (state w)\<lparr>sockets := removeAll p (sockets (state w))\<rparr>,
            heap := (heap w)(p := None)\<rparr>"
  by (auto simp: live_def Socket_dtor_def split: option.splits)

lemma CloseAllSockets_loop_eq:
  "\<forall>p\<in>set (sockets (state w)). live w p \<Longrightarrow>
     CloseAllSockets_loop w =
       Inr (w\<lparr>state := (state w)\<lparr>sockets := []\<rparr>,
              heap := (\<lambda>p. if p \<in> set (sockets (state w)) then None else heap w p)\<rparr>)"
proof (induction w rule: CloseAllSockets_loop.induct)
  case (1 w)
  show ?case
  proof (cases "sockets (state w) = []")
    case True
    then show ?thesis
      by (simp add: CloseAllSockets_loop.simps [of w])
  next
    case False
    define h where "h = hd (sockets (state w))"
    define w1 where
      "w1 = w\<lparr>state := (state w)\<lparr>sockets := removeAll h (sockets (state w))\<rparr>,
              heap := (heap w)(h := None)\<rparr>"
    from False have hin: "h \<in> set (sockets (state w))"
      by (simp add: h_def)
    with 1(2) have "live w h" by blast
    then have d: "Socket_dtor w (hd (sockets (state w))) = Inr w1"
      unfolding h_def w1_def by (rule Socket_dtor_live)
    have "\<forall>p\<in>set (sockets (state w1)). live w1 p"
      using 1(2) by (auto simp: w1_def live_def)
    from 1(1) [OF False d this]
    have "CloseAllSockets_loop w1 =
        Inr (w1\<lparr>state := (state w1)\<lparr>sockets := []\<rparr>,
               heap := (\<lambda>p. if p \<in> set (sockets (state w1)) then None else heap w1 p)\<rparr>)" .
    moreover have "(\<lambda>p. if p \<in> set (sockets (state w1)) then None else heap w1 p) =
        (\<lambda>p. if p \<in> set (sockets (state w)) then None else heap w p)"
      using hin by (auto simp: w1_def fun_eq_iff)
    moreover have "w1\<lparr>state := (state w1)\<lparr>sockets := []\<rparr>, heap := f\<rparr> =
        w\<lparr>state := (state w)\<lparr>sockets := []\<rparr>, heap := f\<rparr>" for f
      by (simp add: w1_def)
    ultimately show ?thesis
      using False d by (simp add: CloseAllSockets_loop.simps [of w])
  qed
qed

lemma CloseAllSockets_deleted_eq:
  "\<forall>p\<in>set (sockets (state w)). live w p \<Longrightarrow> distinct (sockets (state w)) \<Longrightarrow>
     CloseAllSockets_deleted w = sockets (state w)"
proof (induction w rule: CloseAllSockets_deleted.induct)
  case (1 w)
  show ?case
  proof (cases "sockets (state w)")
    case Nil
    then show ?thesis
      by (simp add: CloseAllSockets_deleted.simps [of w])
  next
    case (Cons h ss)
    define w1 where
      "w1 = w\<lparr>state := (state w)\<lparr>sockets := removeAll h (sockets (state w))\<rparr>,
              heap := (heap w)(h := None)\<rparr>"
    from Cons 1(2) have "live w h" by simp
    then have d: "Socket_dtor w (hd (sockets (state w))) = Inr w1"
      unfolding w1_def using Cons by (simp add: Socket_dtor_live)
    from Cons 1(3) have ss: "sockets (state w1) = ss"
      by (simp add: w1_def)
    have ne: "sockets (state w) \<noteq> []" using Cons by simp
    have "\<forall>p\<in>set (sockets (state w1)). live w1 p"
      using 1(2,3) Cons by (auto simp: w1_def live_def)
    moreover have "distinct (sockets (state w1))"
      using 1(3) Cons ss by simp
    ultimately have "CloseAllSockets_deleted w1 = sockets (state w1)"
      by (rule 1(1) [OF ne d])
    with ss Cons d show ?thesis
      by (simp add: CloseAllSockets_deleted.simps [of w])
  qed
qed

lemma CloseAllSockets_eq:
  assumes "\<forall>p\<in>set (sockets (state w)). live w p" and "reset_timer (state w) = Some ev"
  shows "CloseAllSockets w =
    Inr (w\<lparr>state := (state w)\<lparr>sockets := [], score := 0, reset_timer := None\<rparr>,
           heap := (\<lambda>p. if p \<in> set (sockets (state w)) then None else heap w p),
           cout := cout w @ printf_d (score (state w)) @ '' / '' @
                   printf_d (max_score (state w)) @ [CHR 0x0A]\<rparr>)"
  using assms(2)
  by (simp add: CloseAllSockets_def CloseAllSockets_loop_eq [OF assms(1)] ResetAndPrintScore_def)

lemma UpdateTimeout_Inr:
  assumes "UpdateTimeout w this tv g_sec g_usec = Inr w1"
  shows "state w1 = state w" and "cout w1 = cout w" and "loop_break w1 = loop_break w"
    and "\<And>p. p \<noteq> this \<Longrightarrow> heap w1 p = heap w p"
    and "live w this" and "live w1 this" and "1 \<le> max_seconds (state w)"
  using assms
  by (auto simp: UpdateTimeout_def live_def Let_def split: option.splits if_splits)

lemma Start_Inr:
  assumes "Start b w this tv g_sec g_usec = Inr w1"
  shows "state w1 = (state w)\<lparr>sockets := List.insert this (sockets (state w))\<rparr>"
    and "cout w1 = cout w" and "loop_break w1 = loop_break w"
    and "\<And>p. p \<noteq> this \<Longrightarrow> heap w1 p = heap w p"
    and "live w1 this"
proof -
  from assms obtain w0 s0 where u: "UpdateTimeout w this tv g_sec g_usec = Inr w0"
    and h0: "heap w0 this = Some s0"
    and w1: "w1 = w0\<lparr>heap := (heap w0)(this \<mapsto>
               s0\<lparr>sock_buf := map_option (\<lambda>bev. bev\<lparr>bev_enabled := True\<rparr>) (sock_buf s0)\<rparr>),
             state := (state w0)\<lparr>sockets := List.insert this (sockets (state w0))\<rparr>\<rparr>"
    by (auto simp: Start_def split: option.splits if_splits sum.splits)
  note f = UpdateTimeout_Inr [OF u]
  show "state w1 = (state w)\<lparr>sockets := List.insert this (sockets (state w))\<rparr>"
    by (simp add: w1 f(1))
  show "cout w1 = cout w" "loop_break w1 = loop_break w"
    by (simp_all add: w1 f)
  show "heap w1 p = heap w p" if "p \<noteq> this" for p
    using that by (simp add: w1 f(4))
  show "live w1 this"
    using f(6) h0 by (auto simp: w1 live_def)
qed

lemma length_removeAll_distinct:
  "distinct xs \<Longrightarrow> p \<in> set xs \<Longrightarrow> length (removeAll p xs) + 1 = length xs"
  by (induction xs) auto

lemma Socket_dtor_effect:
  assumes d: "distinct (sockets (state w))" and l: "\<forall>p\<in>set (sockets (state w)). live w p"
    and p: "p \<in> set (sockets (state w))"
  shows "\<exists>w1. Socket_dtor w p = Inr w1 \<and>
           set (sockets (state w1)) = set (sockets (state w)) - {p} \<and>
           length (sockets (state w1)) + 1 = length (sockets (state w)) \<and>
           heap w1 p = None \<and> (\<forall>q. q \<noteq> p \<longrightarrow> heap w1 q = heap w q) \<and>
           cout w1 = cout w \<and> score (state w1) = score (state w) \<and>
           max_score (state w1) = max_score (state w) \<and>
           reset_timer (state w1) = reset_timer (state w) \<and> loop_break w1 = loop_break w \<and>
           distinct (sockets (state w1)) \<and> (\<forall>q\<in>set (sockets (state w1)). live w1 q)"
proof -
  from l p have "live w p" by blast
  note e = Socket_dtor_live [OF this]
  have "\<forall>q\<in>set (removeAll p (sockets (state w))). live w q \<and> q \<noteq> p"
    using l by simp
  then have "\<forall>q\<in>set (removeAll p (sockets (state w))).
      live (w\<lparr>state := (state w)\<lparr>sockets := removeAll p (sockets (state w))\<rparr>,
              heap := (heap w)(p := None)\<rparr>) q"
    by (simp add: live_def)
  with d length_removeAll_distinct [OF d p] show ?thesis
    by (simp add: e distinct_removeAll)
qed

subsection \<open>Consistency of the reachable states\<close>

lemma consistent_sockets_live: "consistent w \<Longrightarrow> \<forall>p\<in>set (sockets (state w)). live w p"
  by (auto simp: consistent_def live_def split: option.splits)

lemma consistent_timer:
  "consistent w \<Longrightarrow> heap w p \<noteq> None \<Longrightarrow> \<exists>ev. reset_timer (state w) = Some ev"
proof -
  assume c: "consistent w" and h: "heap w p \<noteq> None"
  then have "p \<in> set (sockets (state w))"
    by (simp add: consistent_def)
  then have "sockets (state w) \<noteq> []"
    by auto
  with c show ?thesis
    by (auto simp: consistent_def)
qed

lemma consistent_after_reset:
  assumes c: "consistent w" and r: "CloseAllSockets w = Inr w2"
    and t: "reset_timer (state w) = Some ev"
  shows "consistent w2" and "consistent (w2\<lparr>loop_break := True\<rparr>)"
proof -
  note e = CloseAllSockets_eq [OF consistent_sockets_live [OF c] t]
  from r e have w2: "w2 = w\<lparr>state := (state w)\<lparr>sockets := [], score := 0, reset_timer := None\<rparr>,
           heap := (\<lambda>p. if p \<in> set (sockets (state w)) then None else heap w p),
           cout := cout w @ printf_d (score (state w)) @ '' / '' @
                   printf_d (max_score (state w)) @ [CHR 0x0A]\<rparr>"
    by simp
  from c have "heap w p = None" if "p \<notin> set (sockets (state w))" for p
    using that by (simp add: consistent_def)
  moreover from c have "0 \<le> max_score (state w)"
    by (simp add: consistent_def)
  ultimately show "consistent w2" and "consistent (w2\<lparr>loop_break := True\<rparr>)"
    by (simp_all add: consistent_def w2)
qed

lemma OnRead_Inr:
  assumes "OnRead b w sock input tv tv' g_sec g_usec = Inr w1" and "\<not> loop_break w"
    and "input \<noteq> []"
  shows "resets b w (Readable sock input tv tv' g_sec g_usec) \<and>
           (\<exists>w2. CloseAllSockets w = Inr w2 \<and> (w1 = w2 \<or> w1 = w2\<lparr>loop_break := True\<rparr>)) \<or>
         \<not> resets b w (Readable sock input tv tv' g_sec g_usec) \<and>
           UpdateTimeout (w\<lparr>state := IncreaseScore (state w)\<rparr>) sock tv' g_sec g_usec = Inr w1"
  using assms
  by (auto simp: OnRead_def resets_def Let_def split: option.splits if_splits sum.splits)

lemma OnAccept_Inr:
  assumes "OnAccept b w fd p ok tv g_sec g_usec ep lt = Inr w1"
  shows "state w1 = (state w)\<lparr>
           reset_timer := (case reset_timer (state w) of
                             None \<Rightarrow>
                                 Some \<lparr>ev_ptr = ep,
                                       ev_timeout = \<lparr>tv_sec = max_before_reset (state w), tv_usec = 0\<rparr>,
                                       ev_added = lt\<rparr>
                           | Some ev \<Rightarrow> Some ev),
           sockets := List.insert p (sockets (state w))\<rparr>"
    and "cout w1 = cout w" and "loop_break w1 = loop_break w"
    and "\<And>q. q \<noteq> p \<Longrightarrow> heap w1 q = heap w q" and "live w1 p"
proof -
  define w0 where "w0 = (if reset_timer (state w) = None
                then w\<lparr>state := (state w)\<lparr>reset_timer :=
                       Some \<lparr>ev_ptr = ep,
                             ev_timeout = \<lparr>tv_sec = max_before_reset (state w), tv_usec = 0\<rparr>,
                             ev_added = lt\<rparr>\<rparr>\<rparr>
                else w)"
  from assms have s: "Start b (w0\<lparr>heap := (heap w0)(p \<mapsto> Socket_ctor ok fd)\<rparr>) p tv g_sec g_usec = Inr w1"
    by (simp add: OnAccept_def Let_def w0_def)
  note f = Start_Inr [OF s]
  show "state w1 = (state w)\<lparr>
           reset_timer := (case reset_timer (state w) of
                             None \<Rightarrow>
                                 Some \<lparr>ev_ptr = ep,
                                       ev_timeout = \<lparr>tv_sec = max_before_reset (state w), tv_usec = 0\<rparr>,
                                       ev_added = lt\<rparr>
                           | Some ev \<Rightarrow> Some ev),
           sockets := List.insert p (sockets (state w))\<rparr>"
    by (auto simp: f(1) w0_def split: option.splits)
  show "cout w1 = cout w" "loop_break w1 = loop_break w"
    by (simp_all add: f w0_def)
  show "heap w1 q = heap w q" if "q \<noteq> p" for q
    using that by (simp add: f(4) w0_def)
  show "live w1 p" by (rule f(5))
qed

lemma consistent_OnAccept:
  assumes c: "consistent w" and a: "OnAccept b w fd p ok tv g_sec g_usec ep lt = Inr w1"
    and fresh: "heap w p = None" and nb: "\<not> loop_break w"
  shows "consistent w1"
proof -
  note f = OnAccept_Inr [OF a]
  from c fresh have notin: "p \<notin> set (sockets (state w))"
    by (simp add: consistent_def)
  from f(5) obtain s1 where hp: "heap w1 p = Some s1" and bp: "sock_buf s1 \<noteq> None"
    by (auto simp: live_def split: option.splits)
  have buf1: "sock_buf s \<noteq> None" if "heap w1 q = Some s" for q s
  proof (cases "q = p")
    case True
    with that hp bp show ?thesis by simp
  next
    case False
    with that f(4) [of q] c show ?thesis by (simp add: consistent_def)
  qed
  have mem: "p' \<in> set (sockets (state w1)) \<longleftrightarrow> heap w1 p' \<noteq> None" for p'
  proof (cases "p' = p")
    case True
    with hp show ?thesis by (simp add: f(1))
  next
    case False
    with f(4) [of p'] c show ?thesis by (simp add: f(1) consistent_def)
  qed
  have "distinct (sockets (state w1))"
    using c notin by (simp add: f(1) consistent_def)
  moreover have "reset_timer (state w1) \<noteq> None"
    by (simp add: f(1) split: option.splits)
  moreover have "0 \<le> score (state w1)" "score (state w1) \<le> max_score (state w1)"
    using c by (simp_all add: f(1) consistent_def)
  moreover have "\<not> loop_break w1"
    using nb by (simp add: f(3))
  ultimately show ?thesis
    unfolding consistent_def using mem buf1 by blast
qed

lemma consistent_heap_update:
  assumes c: "consistent w" and st: "state w1 = state w" and lb: "loop_break w1 = loop_break w"
    and oth: "\<And>p. p \<noteq> this \<Longrightarrow> heap w1 p = heap w p"
    and l0: "live w this" and l1: "live w1 this"
  shows "consistent w1"
proof -
  from l0 obtain s0 where h0: "heap w this = Some s0"
    by (auto simp: live_def split: option.splits)
  from l1 obtain s1 where h1: "heap w1 this = Some s1" and b1: "sock_buf s1 \<noteq> None"
    by (auto simp: live_def split: option.splits)
  have mem: "heap w1 p \<noteq> None \<longleftrightarrow> heap w p \<noteq> None" for p
    using oth [of p] h0 h1 by (cases "p = this") simp_all
  have buf: "sock_buf s \<noteq> None" if "heap w1 p = Some s" for p s
  proof (cases "p = this")
    case True
    with that h1 b1 show ?thesis by simp
  next
    case False
    with that oth [of p] c show ?thesis by (simp add: consistent_def)
  qed
  from c have "\<forall>p. p \<in> set (sockets (state w1)) \<longleftrightarrow> heap w1 p \<noteq> None"
    unfolding st using mem by (simp add: consistent_def)
  with c buf show ?thesis
    unfolding consistent_def st lb by blast
qed

lemma consistent_IncreaseScore:
  "consistent w \<Longrightarrow> consistent (w\<lparr>state := IncreaseScore (state w)\<rparr>)"
  by (simp add: consistent_def IncreaseScore_def Let_def)

lemma consistent_Socket_dtor:
  assumes c: "consistent w" and d: "Socket_dtor w p = Inr w1"
  shows "consistent w1"
proof -
  from Socket_dtor_Inr [OF d]
  have w1: "w1 = w\<lparr>state := (state w)\<lparr>sockets := removeAll p (sockets (state w))\<rparr>,
                    heap := (heap w)(p := None)\<rparr>" and l: "live w p"
    by simp_all
  from l have "heap w p \<noteq> None"
    by (auto simp: live_def split: option.splits)
  with c have "p \<in> set (sockets (state w))" "\<not> loop_break w"
    by (auto simp: consistent_def)
  then have "reset_timer (state w) \<noteq> None"
    using c by (auto simp: consistent_def)
  with c \<open>\<not> loop_break w\<close> show ?thesis
    by (auto simp: consistent_def w1 distinct_removeAll)
qed

lemma consistent_step:
  assumes c: "consistent w" and s: "step b w e = Inr w1"
  shows "consistent w1"
proof (cases "loop_break w")
  case True
  with s c show ?thesis by (simp add: step_def)
next
  case nb: False
  show ?thesis
  proof (cases e)
    case (Accepted fd p ok tv g_sec g_usec ep lt)
    show ?thesis
    proof (cases "heap w p = None")
      case True
      with s nb Accepted have "OnAccept b w fd p ok tv g_sec g_usec ep lt = Inr w1"
        by (simp add: step_def)
      from consistent_OnAccept [OF c this True nb] show ?thesis .
    next
      case False
      with s nb Accepted c show ?thesis by (simp add: step_def)
    qed
  next
    case (Readable sock input tv tv' g_sec g_usec)
    show ?thesis
    proof (cases "heap w sock = None")
      case True
      with s nb Readable c show ?thesis by (simp add: step_def)
    next
      case live: False
      show ?thesis
      proof (cases "input = []")
        case True
        with s nb Readable live c show ?thesis
          by (auto simp: step_def OnEvent_def consistent_Socket_dtor split: if_splits)
      next
        case False
        with s nb Readable live have r: "OnRead b w sock input tv tv' g_sec g_usec = Inr w1"
          by (simp add: step_def)
        from consistent_timer [OF c live] obtain ev where t: "reset_timer (state w) = Some ev" ..
        from OnRead_Inr [OF r nb False] consider
            w2 where "CloseAllSockets w = Inr w2" "w1 = w2 \<or> w1 = w2\<lparr>loop_break := True\<rparr>"
          | "UpdateTimeout (w\<lparr>state := IncreaseScore (state w)\<rparr>) sock tv' g_sec g_usec = Inr w1"
          by blast
        then show ?thesis
        proof cases
          case 1
          with consistent_after_reset [OF c _ t] show ?thesis by blast
        next
          case 2
          note f = UpdateTimeout_Inr [OF 2]
          from consistent_heap_update [OF consistent_IncreaseScore [OF c] f(1) f(3) f(4) f(5) f(6)]
          show ?thesis .
        qed
      qed
    qed
  next
    case (Flagged sock events)
    with s nb c show ?thesis
      by (auto simp: step_def OnEvent_def consistent_Socket_dtor split: if_splits)
  next
    case (TimerExpired now)
    show ?thesis
    proof (cases "reset_timer (state w)")
      case None
      with s nb TimerExpired c show ?thesis by (simp add: step_def)
    next
      case (Some ev)
      show ?thesis
      proof (cases "due ev now")
        case True
        with s nb TimerExpired Some have "CloseAllSockets w = Inr w1"
          by (simp add: step_def Reset_def)
        from consistent_after_reset(1) [OF c this Some] show ?thesis .
      next
        case False
        with s nb TimerExpired Some c show ?thesis by (simp add: step_def)
      qed
    qed
  qed
qed

lemma consistent_RunLoop: "consistent (RunLoop timeout max_timeout)"
  by (simp add: consistent_def RunLoop_def GlobalState_ctor_def)

lemma consistent_run_from:
  "consistent w \<Longrightarrow> run b w es = Inr w1 \<Longrightarrow> consistent w1"
proof (induction es arbitrary: w)
  case Nil
  then show ?case by simp
next
  case (Cons e es)
  then show ?case
    by (auto split: sum.splits dest: consistent_step)
qed

lemma consistent_run:
  "run b (RunLoop timeout max_timeout) es = Inr w \<Longrightarrow> consistent w"
  using consistent_RunLoop by (rule consistent_run_from)

subsection \<open>The effect of the callbacks\<close>

lemma printf_d_no_newline: "CHR 0x0A \<notin> set (printf_d i)"
  by (simp add: printf_d_def dec_no_newline)

lemma printf_06d_no_newline: "CHR 0x0A \<notin> set (printf_06d i)"
  by (simp add: printf_06d_def Let_def dec_no_newline)

lemma status_line_one_line:
  "\<exists>body. status_line sec usec sc msc = body @ [CHR 0x0A] \<and> CHR 0x0A \<notin> set body"
proof -
  let ?body = "printf_d sec @ ''.'' @ printf_06d usec @ '' '' @ printf_d sc @ '' '' @ printf_d msc"
  have "status_line sec usec sc msc = ?body @ [CHR 0x0A]"
    by (simp add: status_line_def)
  moreover have "CHR 0x0A \<notin> set ?body"
    by (simp add: printf_d_no_newline printf_06d_no_newline)
  ultimately show ?thesis by blast
qed

lemma UpdateTimeout_eq:
  assumes h: "heap w this = Some s" and bv: "sock_buf s = Some bev"
    and ms: "1 \<le> max_seconds (state w)"
  shows "\<exists>nx. UpdateTimeout w this tv g_sec g_usec =
      Inr (w\<lparr>heap := (heap w)(this \<mapsto> s\<lparr>sock_next := nx,
             sock_buf := Some (bev\<lparr>bev_output := bev_output bev @
               status_line (uniform_int_distribution 0 (max_seconds (state w) - 1) g_sec)
                 (uniform_int_distribution 0 999999 g_usec)
                 (score (state w)) (max_score (state w))\<rparr>)\<rparr>)\<rparr>) \<and>
      (0 \<le> tv_usec tv \<longrightarrow>
         usecs nx = usecs tv +
           uniform_int_distribution 0 (max_seconds (state w) - 1) g_sec * 1000000 +
           uniform_int_distribution 0 999999 g_usec \<and>
         0 \<le> tv_usec nx \<and> tv_usec nx < 1000000)"
proof -
  define sec where "sec = uniform_int_distribution 0 (max_seconds (state w) - 1) g_sec"
  define usec where "usec = uniform_int_distribution 0 999999 g_usec"
  define n1 where "n1 = UpdateTimeout_carry (tv\<lparr>tv_usec := tv_usec tv + usec\<rparr>)"
  define nx where "nx = n1\<lparr>tv_sec := tv_sec n1 + sec\<rparr>"
  have u: "0 \<le> usec"
    using uniform_int_distribution_range [of 0 999999 g_usec] by (simp add: usec_def)
  have eq: "UpdateTimeout w this tv g_sec g_usec =
      Inr (w\<lparr>heap := (heap w)(this \<mapsto> s\<lparr>sock_next := nx,
             sock_buf := Some (bev\<lparr>bev_output := bev_output bev @
               status_line sec usec (score (state w)) (max_score (state w))\<rparr>)\<rparr>)\<rparr>)"
    using h bv ms
    by (simp add: UpdateTimeout_def Let_def evbuffer_add_printf_def sec_def usec_def n1_def nx_def)
  have "usecs nx = usecs tv + sec * 1000000 + usec \<and> 0 \<le> tv_usec nx \<and> tv_usec nx < 1000000"
    if "0 \<le> tv_usec tv"
  proof -
    from that u have "0 \<le> tv_usec (tv\<lparr>tv_usec := tv_usec tv + usec\<rparr>)"
      by simp
    from UpdateTimeout_carry_normal [OF this]
    have "usecs n1 = usecs tv + usec" "0 \<le> tv_usec n1" "tv_usec n1 < 1000000"
      by (simp_all add: n1_def usecs_def)
    then show ?thesis
      by (simp add: nx_def usecs_def)
  qed
  with eq show ?thesis
    unfolding sec_def usec_def by blast
qed

lemma OnRead_tick:
  assumes h: "heap w sock = Some s" and r: "IsReady s tv" and rd: "evaluated b input"
  shows "OnRead b w sock input tv tv' g_sec g_usec =
    UpdateTimeout (w\<lparr>state := IncreaseScore (state w)\<rparr>) sock tv' g_sec g_usec"
  using assms by (auto simp: OnRead_def Let_def evaluated_def split: if_splits)

lemma OnRead_violation:
  assumes h: "heap w sock = Some s" and r: "\<not> IsReady s tv" and rd: "evaluated b input"
  shows "OnRead b w sock input tv tv' g_sec g_usec = CloseAllSockets w"
  using assms by (auto simp: OnRead_def Let_def evaluated_def split: if_splits)

lemma reset_timer_same: "reset_timer g = t \<Longrightarrow> g\<lparr>reset_timer := t\<rparr> = g"
  by auto

lemma OnAccept_eq:
  assumes ms: "1 \<le> max_seconds (state w)"
  shows "\<exists>nx. OnAccept b w fd p True tv g_sec g_usec ep lt =
      Inr (w\<lparr>state := (state w)\<lparr>
               reset_timer := (case reset_timer (state w) of
                                 None \<Rightarrow>
                                     Some \<lparr>ev_ptr = ep,
                                           ev_timeout = \<lparr>tv_sec = max_before_reset (state w), tv_usec = 0\<rparr>,
                                           ev_added = lt\<rparr>
                               | Some ev \<Rightarrow> Some ev),
               sockets := List.insert p (sockets (state w))\<rparr>,
             heap := (heap w)(p \<mapsto> \<lparr>sock_next = nx,
               sock_buf = Some \<lparr>bev_fd = fd,
                 bev_output =
                   status_line (uniform_int_distribution 0 (max_seconds (state w) - 1) g_sec)
                     (uniform_int_distribution 0 999999 g_usec)
                     (score (state w)) (max_score (state w)),
                 bev_enabled = True\<rparr>\<rparr>)\<rparr>) \<and>
      (0 \<le> tv_usec tv \<longrightarrow>
         usecs nx = usecs tv +
           uniform_int_distribution 0 (max_seconds (state w) - 1) g_sec * 1000000 +
           uniform_int_distribution 0 999999 g_usec \<and>
         0 \<le> tv_usec nx \<and> tv_usec nx < 1000000)"
proof -
  define t where "t = (case reset_timer (state w) of
                                 None \<Rightarrow>
                                     Some \<lparr>ev_ptr = ep,
                                           ev_timeout = \<lparr>tv_sec = max_before_reset (state w), tv_usec = 0\<rparr>,
                                           ev_added = lt\<rparr>
                               | Some ev \<Rightarrow> Some ev)"
  define w2 where "w2 = w\<lparr>state := (state w)\<lparr>reset_timer := t\<rparr>,
                          heap := (heap w)(p \<mapsto> Socket_ctor True fd)\<rparr>"
  have a: "OnAccept b w fd p True tv g_sec g_usec ep lt = Start b w2 p tv g_sec g_usec"
    by (cases "reset_timer (state w)")
      (simp_all add: OnAccept_def Let_def w2_def t_def reset_timer_same)
  have h: "heap w2 p = Some (Socket_ctor True fd)"
    and bv: "sock_buf (Socket_ctor True fd) = Some \<lparr>bev_fd = fd, bev_output = [], bev_enabled = False\<rparr>"
    and ms2: "1 \<le> max_seconds (state w2)"
    using ms by (simp_all add: w2_def Socket_ctor_def bufferevent_socket_new_def)
  from UpdateTimeout_eq [OF h bv ms2, of tv g_sec g_usec]
  obtain nx where u: "UpdateTimeout w2 p tv g_sec g_usec =
      Inr (w2\<lparr>heap := (heap w2)(p \<mapsto> (Socket_ctor True fd)\<lparr>sock_next := nx,
             sock_buf := Some (\<lparr>bev_fd = fd, bev_output = [], bev_enabled = False\<rparr>\<lparr>bev_output :=
               bev_output \<lparr>bev_fd = fd, bev_output = [], bev_enabled = False\<rparr> @
               status_line (uniform_int_distribution 0 (max_seconds (state w2) - 1) g_sec)
                 (uniform_int_distribution 0 999999 g_usec)
                 (score (state w2)) (max_score (state w2))\<rparr>)\<rparr>)\<rparr>)"
    and nx: "0 \<le> tv_usec tv \<longrightarrow>
         usecs nx = usecs tv +
           uniform_int_distribution 0 (max_seconds (state w2) - 1) g_sec * 1000000 +
           uniform_int_distribution 0 999999 g_usec \<and>
         0 \<le> tv_usec nx \<and> tv_usec nx < 1000000"
    by blast
  have "Start b w2 p tv g_sec g_usec =
      Inr (w\<lparr>state := (state w)\<lparr>reset_timer := t, sockets := List.insert p (sockets (state w))\<rparr>,
             heap := (heap w)(p \<mapsto> \<lparr>sock_next = nx,
               sock_buf = Some \<lparr>bev_fd = fd,
                 bev_output =
                   status_line (uniform_int_distribution 0 (max_seconds (state w) - 1) g_sec)
                     (uniform_int_distribution 0 999999 g_usec)
                     (score (state w)) (max_score (state w)),
                 bev_enabled = True\<rparr>\<rparr>)\<rparr>)"
    using h bv by (simp add: Start_def u) (simp add: w2_def Socket_ctor_def)
  with a nx show ?thesis
    unfolding t_def by (auto simp: w2_def)
qed

lemma delay_parts:
  fixes sec usec :: int
  assumes "0 \<le> usec" "usec < 1000000"
  shows "(sec * 1000000 + usec) div 1000000 = sec" and "(sec * 1000000 + usec) mod 1000000 = usec"
  using assms by simp_all

subsection \<open>Evaluation\<close>

lemma replicate_unfold: "0 < n \<Longrightarrow> replicate n x = x # replicate (n - 1) x"
  by (cases n) simp_all

lemmas callback_defs =
  step_def OnAccept_def OnRead_def OnEvent_def Reset_def CloseAllSockets_def
  Socket_dtor_def Start_def UpdateTimeout_def
  IsReady_def IncreaseScore_def ResetAndPrintScore_def
  Socket_ctor_def bufferevent_socket_new_def evbuffer_add_printf_def
  uniform_int_distribution_def RunLoop_def GlobalState_ctor_def
  UpdateTimeout_carry.simps CloseAllSockets_loop.simps Let_def due_def usecs_def

lemmas printf_defs =
  status_line_def printf_d_def printf_06d_def dec.simps digit_char_def replicate_unfold

lemma printed:
  "status_line 0 0 0 0 = ''0.000000 0 0'' @ [CHR 0x0A]"
  "status_line 0 0 1 1 = ''0.000000 1 1'' @ [CHR 0x0A]"
  "status_line 0 0 0 1 = ''0.000000 0 1'' @ [CHR 0x0A]"
  "status_line 2 500000 0 1 = ''2.500000 0 1'' @ [CHR 0x0A]"
  "status_line 2 500000 1 1 = ''2.500000 1 1'' @ [CHR 0x0A]"
  "status_line 0 0 2 2 = ''0.000000 2 2'' @ [CHR 0x0A]"
  by (simp_all add: printf_defs)

lemma printed_scores:
  "printf_d 0 = ''0''" "printf_d 1 = ''1''" "printf_d 2 = ''2''"
  by (simp_all add: printf_defs)

lemma run_history:
  "run \<lparr>DEBUG = False, NDEBUG = False\<rparr> (RunLoop 5 60) history = Inr two_connections"
  by (simp add: history_def two_connections_def callback_defs printed printed_scores)

subsection \<open>Steps that reset and steps that do not\<close>

lemma step_resets:
  assumes c: "consistent w" and r: "resets b w e"
  shows "\<exists>ev w2. reset_timer (state w) = Some ev \<and> CloseAllSockets w = Inr w2 \<and>
           (step b w e = Inr w2 \<or> step b w e = Inr (w2\<lparr>loop_break := True\<rparr>))"
proof -
  from r have nb: "\<not> loop_break w"
    by (simp add: resets_def)
  have "\<exists>ev. reset_timer (state w) = Some ev"
  proof (cases e)
    case (Readable sock input tv tv' g_sec g_usec)
    with r have "heap w sock \<noteq> None"
      by (auto simp: resets_def split: option.splits)
    with c show ?thesis by (rule consistent_timer)
  qed (use r in \<open>auto simp: resets_def split: option.splits\<close>)
  then obtain ev where ev: "reset_timer (state w) = Some ev" ..
  from CloseAllSockets_eq [OF consistent_sockets_live [OF c] ev]
  obtain w2 where w2: "CloseAllSockets w = Inr w2"
    by blast
  have "step b w e = Inr w2 \<or> step b w e = Inr (w2\<lparr>loop_break := True\<rparr>)"
  proof (cases e)
    case (Readable sock input tv tv' g_sec g_usec)
    with r nb w2 show ?thesis
      by (auto simp: resets_def step_def OnRead_def Let_def split: option.splits if_splits)
  next
    case (TimerExpired now)
    with r nb w2 show ?thesis
      by (auto simp: resets_def step_def Reset_def split: option.splits)
  qed (use r in \<open>auto simp: resets_def\<close>)
  with ev w2 show ?thesis by blast
qed

lemma step_resets_fields:
  assumes c: "consistent w" and r: "resets b w e"
  shows "\<exists>w1. step b w e = Inr w1 \<and> reset_timer (state w) \<noteq> None \<and>
           reset_timer (state w1) = None \<and> score (state w1) = 0 \<and>
           max_score (state w1) = max_score (state w) \<and> sockets (state w1) = [] \<and>
           cout w1 = cout w @ printf_d (score (state w)) @ '' / '' @
                     printf_d (max_score (state w)) @ [CHR 0x0A]"
proof -
  from step_resets [OF c r] obtain ev w2 where ev: "reset_timer (state w) = Some ev"
    and w2: "CloseAllSockets w = Inr w2"
    and s: "step b w e = Inr w2 \<or> step b w e = Inr (w2\<lparr>loop_break := True\<rparr>)"
    by blast
  from w2 CloseAllSockets_eq [OF consistent_sockets_live [OF c] ev]
  have "w2 = w\<lparr>state := (state w)\<lparr>sockets := [], score := 0, reset_timer := None\<rparr>,
           heap := (\<lambda>p. if p \<in> set (sockets (state w)) then None else heap w p),
           cout := cout w @ printf_d (score (state w)) @ '' / '' @
                   printf_d (max_score (state w)) @ [CHR 0x0A]\<rparr>"
    by simp
  with s ev show ?thesis by auto
qed

lemma step_quiet:
  assumes q: "\<not> resets b w e" and s: "step b w e = Inr w1"
  shows "cout w1 = cout w"
    and "accepts w e \<Longrightarrow> reset_timer (state w1) \<noteq> None"
    and "reset_timer (state w) \<noteq> None \<Longrightarrow> reset_timer (state w1) = reset_timer (state w)"
    and "\<not> accepts w e \<Longrightarrow> reset_timer (state w1) = reset_timer (state w)"
    and "score (state w1) = score (state w) \<and> max_score (state w1) = max_score (state w) \<or>
         score (state w1) = score (state w) + 1 \<and>
         max_score (state w1) = max (score (state w) + 1) (max_score (state w))"
proof -
  have "cout w1 = cout w \<and>
    (accepts w e \<longrightarrow> reset_timer (state w1) \<noteq> None) \<and>
    (reset_timer (state w) \<noteq> None \<longrightarrow> reset_timer (state w1) = reset_timer (state w)) \<and>
    (\<not> accepts w e \<longrightarrow> reset_timer (state w1) = reset_timer (state w)) \<and>
    (score (state w1) = score (state w) \<and> max_score (state w1) = max_score (state w) \<or>
     score (state w1) = score (state w) + 1 \<and>
     max_score (state w1) = max (score (state w) + 1) (max_score (state w)))"
  proof (cases "loop_break w")
    case True
    with s show ?thesis by (simp add: step_def accepts_def)
  next
    case nb: False
    show ?thesis
    proof (cases e)
      case (Accepted fd p ok tv g_sec g_usec ep lt)
      show ?thesis
      proof (cases "heap w p = None")
        case True
        with s nb Accepted have a: "OnAccept b w fd p ok tv g_sec g_usec ep lt = Inr w1"
          by (simp add: step_def)
        note f = OnAccept_Inr [OF a]
        have "accepts w e"
          using True nb Accepted by (simp add: accepts_def)
        then show ?thesis
          by (auto simp: f(1) f(2) split: option.splits)
      next
        case False
        with s nb Accepted show ?thesis by (auto simp: step_def accepts_def)
      qed
    next
      case (Readable sock input tv tv' g_sec g_usec)
      show ?thesis
      proof (cases "heap w sock = None")
        case True
        with s nb Readable show ?thesis by (simp add: step_def accepts_def)
      next
        case live: False
        show ?thesis
        proof (cases "input = []")
          case True
          with s nb Readable live show ?thesis
            by (auto simp: step_def OnEvent_def accepts_def dest!: Socket_dtor_Inr
                split: if_splits)
        next
          case False
          with s nb Readable live have r: "OnRead b w sock input tv tv' g_sec g_usec = Inr w1"
            by (simp add: step_def)
          from OnRead_Inr [OF r nb False] q Readable
          have u: "UpdateTimeout (w\<lparr>state := IncreaseScore (state w)\<rparr>) sock tv' g_sec g_usec =
              Inr w1"
            by blast
          note f = UpdateTimeout_Inr [OF u]
          show ?thesis
            using Readable by (simp add: f(1) f(2) IncreaseScore_def Let_def accepts_def)
        qed
      qed
    next
      case (Flagged sock events)
      with s nb show ?thesis
        by (auto simp: step_def OnEvent_def accepts_def dest!: Socket_dtor_Inr split: if_splits)
    next
      case (TimerExpired now)
      with s nb q show ?thesis
        by (auto simp: step_def resets_def accepts_def split: if_splits option.splits)
    qed
  qed
  then show "cout w1 = cout w"
    and "accepts w e \<Longrightarrow> reset_timer (state w1) \<noteq> None"
    and "reset_timer (state w) \<noteq> None \<Longrightarrow> reset_timer (state w1) = reset_timer (state w)"
    and "\<not> accepts w e \<Longrightarrow> reset_timer (state w1) = reset_timer (state w)"
    and "score (state w1) = score (state w) \<and> max_score (state w1) = max_score (state w) \<or>
         score (state w1) = score (state w) + 1 \<and>
         max_score (state w1) = max (score (state w) + 1) (max_score (state w))"
    by blast+
qed

text \<open>The steps for which \<open>resets\<close> holds are the steps that write a result line.\<close>

lemma resets_iff_result_line:
  assumes c: "consistent w" and s: "step b w e = Inr w1"
  shows "resets b w e \<longleftrightarrow> cout w1 \<noteq> cout w"
proof (cases "resets b w e")
  case True
  from step_resets_fields [OF c True] s True show ?thesis by auto
next
  case False
  from step_quiet(1) [OF False s] False show ?thesis by simp
qed

lemma step_max_score_mono:
  assumes c: "consistent w" and s: "step b w e = Inr w1"
  shows "max_score (state w) \<le> max_score (state w1)"
proof (cases "resets b w e")
  case True
  from step_resets_fields [OF c True] s show ?thesis by auto
next
  case False
  from step_quiet(5) [OF False s] show ?thesis by auto
qed

lemma run_max_score_mono:
  "consistent w \<Longrightarrow> run b w es = Inr w1 \<Longrightarrow> max_score (state w) \<le> max_score (state w1)"
proof (induction es arbitrary: w)
  case Nil
  then show ?case by simp
next
  case (Cons e es)
  from Cons.prems(2) obtain w' where s: "step b w e = Inr w'" and r: "run b w' es = Inr w1"
    by (auto split: sum.splits)
  from step_max_score_mono [OF Cons.prems(1) s]
    Cons.IH [OF consistent_step [OF Cons.prems(1) s] r]
  show ?case by simp
qed

lemma quiet_max_score:
  "run b w es = Inr w1 \<Longrightarrow> quiet b w es \<Longrightarrow>
     max_score (state w) = max M (score (state w)) \<Longrightarrow>
     max_score (state w1) = max M (score (state w1))"
proof (induction es arbitrary: w)
  case Nil
  then show ?case by simp
next
  case (Cons e es)
  from Cons.prems(1) obtain w' where s: "step b w e = Inr w'" and r: "run b w' es = Inr w1"
    by (auto split: sum.splits)
  from Cons.prems(2) s have q: "\<not> resets b w e" and q': "quiet b w' es"
    by simp_all
  from step_quiet(5) [OF q s] Cons.prems(3)
  have "max_score (state w') = max M (score (state w'))"
    by auto
  from Cons.IH [OF r q' this] show ?case .
qed

lemma armed_iff_accepted:
  "consistent w \<Longrightarrow> run b w es = Inr w1 \<Longrightarrow>
     (reset_timer (state w1) \<noteq> None) =
       accepted_since_reset b w (reset_timer (state w) \<noteq> None) es"
proof (induction es arbitrary: w)
  case Nil
  then show ?case by simp
next
  case (Cons e es)
  from Cons.prems(2) obtain w' where s: "step b w e = Inr w'" and r: "run b w' es = Inr w1"
    by (auto split: sum.splits)
  have "(reset_timer (state w') \<noteq> None) =
      (if resets b w e then False else if accepts w e then True
       else reset_timer (state w) \<noteq> None)"
  proof (cases "resets b w e")
    case True
    from step_resets_fields [OF Cons.prems(1) True] s True show ?thesis by auto
  next
    case False
    from step_quiet(2,4) [OF False s] False show ?thesis by auto
  qed
  with Cons.IH [OF consistent_step [OF Cons.prems(1) s] r] s show ?case
    by simp
qed

subsection \<open>The scenario with one second and zero draws\<close>

lemma connect_scenario:
  assumes clk0: "0 \<le> tv_usec t0"
    and zero: "uniform_int_distribution 0 999999 g_usec = 0"
  shows "\<exists>nx. usecs nx = usecs t0 \<and> 0 \<le> tv_usec nx \<and> tv_usec nx < 1000000 \<and>
    step b (RunLoop 1 60) (Accepted fd p True t0 g_sec g_usec ep lt) =
      Inr \<lparr>state = \<lparr>max_seconds = 1, max_before_reset = 60, score = 0, max_score = 0,
                    reset_timer =
                        Some \<lparr>ev_ptr = ep,
                              ev_timeout = \<lparr>tv_sec = 60, tv_usec = 0\<rparr>,
                              ev_added = lt\<rparr>, sockets = [p]\<rparr>,
           heap = (\<lambda>q. None)(p \<mapsto> \<lparr>sock_next = nx,
                    sock_buf = Some \<lparr>bev_fd = fd, bev_output = ''0.000000 0 0'' @ [CHR 0x0A],
                                     bev_enabled = True\<rparr>\<rparr>),
           cout = [], loop_break = False\<rparr>"
proof -
  have ms: "1 \<le> max_seconds (state (RunLoop 1 60))"
    by (simp add: RunLoop_def GlobalState_ctor_def)
  have sec: "uniform_int_distribution 0 (max_seconds (state (RunLoop 1 60)) - 1) g_sec = 0"
    by (simp add: RunLoop_def GlobalState_ctor_def uniform_int_distribution_def)
  from OnAccept_eq [OF ms, of b fd p t0 g_sec g_usec ep lt] clk0
  obtain nx where a: "OnAccept b (RunLoop 1 60) fd p True t0 g_sec g_usec ep lt =
      Inr ((RunLoop 1 60)\<lparr>state := (state (RunLoop 1 60))\<lparr>
               reset_timer := (case reset_timer (state (RunLoop 1 60)) of
                                 None \<Rightarrow>
                                     Some \<lparr>ev_ptr = ep,
                                           ev_timeout = \<lparr>tv_sec = max_before_reset (state (RunLoop 1 60)), tv_usec = 0\<rparr>,
                                           ev_added = lt\<rparr>
                               | Some ev \<Rightarrow> Some ev),
               sockets := List.insert p (sockets (state (RunLoop 1 60)))\<rparr>,
             heap := (heap (RunLoop 1 60))(p \<mapsto> \<lparr>sock_next = nx,
               sock_buf = Some \<lparr>bev_fd = fd,
                 bev_output = status_line 0 0
                     (score (state (RunLoop 1 60))) (max_score (state (RunLoop 1 60))),
                 bev_enabled = True\<rparr>\<rparr>)\<rparr>)"
    and nx: "usecs nx = usecs t0" "0 \<le> tv_usec nx" "tv_usec nx < 1000000"
    unfolding sec zero by auto
  have "step b (RunLoop 1 60) (Accepted fd p True t0 g_sec g_usec ep lt) =
      OnAccept b (RunLoop 1 60) fd p True t0 g_sec g_usec ep lt"
    by (simp add: step_def RunLoop_def)
  with a nx show ?thesis
    by (intro exI [of _ nx]) (simp add: RunLoop_def GlobalState_ctor_def printed(1))
qed

section \<open>The properties\<close>

subsection \<open>The deadline test\<close>

text \<open>
  Claim C7. For a clock value and a stored deadline whose microsecond fields lie between
  0 and 999999, \<open>IsReady\<close> is true exactly when the clock, counted in microseconds, has
  reached the deadline; in particular it is true when the clock equals the deadline.
\<close>

theorem IsReady_iff_deadline_reached:
  assumes "0 \<le> tv_usec now" and "tv_usec now < 1000000"
    and "0 \<le> tv_usec (sock_next s)" and "tv_usec (sock_next s) < 1000000"
  shows "(IsReady s now \<longleftrightarrow> usecs (sock_next s) \<le> usecs now) \<and>
         (now = sock_next s \<longrightarrow> IsReady s now)"
proof
  show "IsReady s now \<longleftrightarrow> usecs (sock_next s) \<le> usecs now"
    using assms by (rule IsReady_usecs)
  show "now = sock_next s \<longrightarrow> IsReady s now"
    by (simp add: IsReady_def)
qed

theorem IsReady_iff_deadline_reached_witness:
  "0 \<le> tv_usec \<lparr>tv_sec = 100, tv_usec = 5\<rparr> \<and>
   tv_usec \<lparr>tv_sec = 100, tv_usec = 5\<rparr> < 1000000 \<and>
   usecs \<lparr>tv_sec = 100, tv_usec = 5\<rparr> = 100000005 \<and>
   IsReady \<lparr>sock_next = \<lparr>tv_sec = 100, tv_usec = 5\<rparr>, sock_buf = None\<rparr>
     \<lparr>tv_sec = 100, tv_usec = 5\<rparr> \<and>
   \<not> IsReady \<lparr>sock_next = \<lparr>tv_sec = 100, tv_usec = 5\<rparr>, sock_buf = None\<rparr>
     \<lparr>tv_sec = 99, tv_usec = 999999\<rparr>"
  using IsReady_iff_deadline_reached
      [of "\<lparr>tv_sec = 100, tv_usec = 5\<rparr>"
          "\<lparr>sock_next = \<lparr>tv_sec = 100, tv_usec = 5\<rparr>, sock_buf = None\<rparr>"]
    IsReady_iff_deadline_reached
      [of "\<lparr>tv_sec = 99, tv_usec = 999999\<rparr>"
          "\<lparr>sock_next = \<lparr>tv_sec = 100, tv_usec = 5\<rparr>, sock_buf = None\<rparr>"]
  by (simp add: usecs_def)

subsection \<open>The teardown loop\<close>

text \<open>
  Claim C10. For every set of live connections the loop of \<open>CloseAllSockets\<close> returns,
  with the set empty and every connection of the set destroyed. The pointers it deletes
  are the pointers of the set, each once. One destruction removes exactly its own pointer
  from the set, which becomes one smaller, leaves every other object alone, and leaves
  the set in a state to which the same statement applies again. No destruction writes a
  result line, changes the score or touches the timer, which is all the reset coordinator
  does beyond destroying connections: a destructor does not enter it.
\<close>

theorem teardown_loop_terminates:
  assumes "distinct (sockets (state w))" and "\<forall>p\<in>set (sockets (state w)). live w p"
  shows "(\<exists>w'. CloseAllSockets_loop w = Inr w' \<and>
           sockets (state w') = [] \<and>
           (\<forall>p\<in>set (sockets (state w)). heap w' p = None) \<and>
           (\<forall>p. p \<notin> set (sockets (state w)) \<longrightarrow> heap w' p = heap w p) \<and>
           cout w' = cout w \<and> score (state w') = score (state w) \<and>
           max_score (state w') = max_score (state w) \<and>
           reset_timer (state w') = reset_timer (state w) \<and> loop_break w' = loop_break w) \<and>
         CloseAllSockets_deleted w = sockets (state w) \<and>
         (\<forall>p\<in>set (sockets (state w)).
           \<exists>w1. Socket_dtor w p = Inr w1 \<and>
             set (sockets (state w1)) = set (sockets (state w)) - {p} \<and>
             length (sockets (state w1)) + 1 = length (sockets (state w)) \<and>
             heap w1 p = None \<and> (\<forall>q. q \<noteq> p \<longrightarrow> heap w1 q = heap w q) \<and>
             cout w1 = cout w \<and> score (state w1) = score (state w) \<and>
             max_score (state w1) = max_score (state w) \<and>
             reset_timer (state w1) = reset_timer (state w) \<and> loop_break w1 = loop_break w \<and>
             distinct (sockets (state w1)) \<and> (\<forall>q\<in>set (sockets (state w1)). live w1 q))"
proof (intro conjI ballI)
  show "\<exists>w'. CloseAllSockets_loop w = Inr w' \<and>
           sockets (state w') = [] \<and>
           (\<forall>p\<in>set (sockets (state w)). heap w' p = None) \<and>
           (\<forall>p. p \<notin> set (sockets (state w)) \<longrightarrow> heap w' p = heap w p) \<and>
           cout w' = cout w \<and> score (state w') = score (state w) \<and>
           max_score (state w') = max_score (state w) \<and>
           reset_timer (state w') = reset_timer (state w) \<and> loop_break w' = loop_break w"
    by (simp add: CloseAllSockets_loop_eq [OF assms(2)])
  show "CloseAllSockets_deleted w = sockets (state w)"
    using assms(2,1) by (rule CloseAllSockets_deleted_eq)
next
  fix p assume "p \<in> set (sockets (state w))"
  with assms show "\<exists>w1. Socket_dtor w p = Inr w1 \<and>
             set (sockets (state w1)) = set (sockets (state w)) - {p} \<and>
             length (sockets (state w1)) + 1 = length (sockets (state w)) \<and>
             heap w1 p = None \<and> (\<forall>q. q \<noteq> p \<longrightarrow> heap w1 q = heap w q) \<and>
             cout w1 = cout w \<and> score (state w1) = score (state w) \<and>
             max_score (state w1) = max_score (state w) \<and>
             reset_timer (state w1) = reset_timer (state w) \<and> loop_break w1 = loop_break w \<and>
             distinct (sockets (state w1)) \<and> (\<forall>q\<in>set (sockets (state w1)). live w1 q)"
    by (rule Socket_dtor_effect)
qed

theorem teardown_loop_terminates_witness:
  "distinct (sockets (state two_connections)) \<and> live two_connections 1 \<and> live two_connections 2 \<and>
   (\<exists>w'. CloseAllSockets_loop two_connections = Inr w' \<and> sockets (state w') = [] \<and>
      heap w' 1 = None \<and> heap w' 2 = None \<and> cout w' = ''1 / 1'' @ [CHR 0x0A] \<and>
      score (state w') = 0 \<and> max_score (state w') = 1 \<and>
      reset_timer (state w') =
          Some \<lparr>ev_ptr = 50,
                ev_timeout = \<lparr>tv_sec = 60, tv_usec = 0\<rparr>,
                ev_added = \<lparr>tv_sec = 100, tv_usec = 0\<rparr>\<rparr>) \<and>
   CloseAllSockets_deleted two_connections = [2, 1] \<and>
   (\<exists>w1. Socket_dtor two_connections 2 = Inr w1 \<and> set (sockets (state w1)) = {1} \<and>
      length (sockets (state w1)) + 1 = 2 \<and> heap w1 2 = None \<and>
      cout w1 = ''1 / 1'' @ [CHR 0x0A])"
proof -
  have d: "distinct (sockets (state two_connections))"
    by (simp add: two_connections_def)
  have l: "live two_connections 1" "live two_connections 2"
    by (simp_all add: two_connections_def live_def)
  then have l': "\<forall>p\<in>set (sockets (state two_connections)). live two_connections p"
    by (simp add: two_connections_def)
  have s: "sockets (state two_connections) = [2, 1]"
    "cout two_connections = ''1 / 1'' @ [CHR 0x0A]" "score (state two_connections) = 0"
    "max_score (state two_connections) = 1"
    "reset_timer (state two_connections) =
        Some \<lparr>ev_ptr = 50,
              ev_timeout = \<lparr>tv_sec = 60, tv_usec = 0\<rparr>,
              ev_added = \<lparr>tv_sec = 100, tv_usec = 0\<rparr>\<rparr>"
    by (simp_all add: two_connections_def)
  from teardown_loop_terminates [OF d l'] show ?thesis
    unfolding s using d l by auto
qed

subsection \<open>A read after the deadline\<close>

text \<open>
  Claim C2. When a connection's read callback runs with the clock at or past the
  connection's deadline, with at least one configured second and with bytes that let
  \<open>OnRead\<close> reach the test of the deadline (\<open>evaluated\<close>: in the build without \<^verbatim>\<open>DEBUG\<close>,
  at least one byte), one tick happens: the score grows by exactly one and the maximum
  follows it, the two draws lie in the ranges from 0 below \<open>max_seconds\<close> and from 0 below
  1000000, the new deadline is the clock of the update plus the drawn seconds and
  microseconds with its microsecond field carried into the range from 0 to 999999, and
  exactly one status line is appended to the connection's output. Every other connection,
  the set of connections, the timer and the standard output are as before: nothing is
  destroyed and no reset happens.
\<close>

theorem tick_after_deadline:
  fixes w :: world and g_sec g_usec :: int
  defines "sec \<equiv> uniform_int_distribution 0 (max_seconds (state w) - 1) g_sec"
    and "usec \<equiv> uniform_int_distribution 0 999999 g_usec"
  assumes h: "heap w sock = Some s" and bv: "sock_buf s = Some bev"
    and r: "IsReady s tv"
    and rd: "evaluated b input"
    and ms: "1 \<le> max_seconds (state w)"
    and clk: "0 \<le> tv_usec tv'" "tv_usec tv' < 1000000"
  shows "\<exists>w' s' bev'.
      OnRead b w sock input tv tv' g_sec g_usec = Inr w' \<and>
      score (state w') = score (state w) + 1 \<and>
      max_score (state w') = max (score (state w) + 1) (max_score (state w)) \<and>
      0 \<le> sec \<and> sec < max_seconds (state w) \<and> 0 \<le> usec \<and> usec < 1000000 \<and>
      heap w' sock = Some s' \<and>
      usecs (sock_next s') = usecs tv' + sec * 1000000 + usec \<and>
      0 \<le> tv_usec (sock_next s') \<and> tv_usec (sock_next s') < 1000000 \<and>
      sock_buf s' = Some bev' \<and>
      bev_output bev' =
        bev_output bev @ status_line sec usec (score (state w')) (max_score (state w')) \<and>
      (\<forall>p. p \<noteq> sock \<longrightarrow> heap w' p = heap w p) \<and>
      sockets (state w') = sockets (state w) \<and>
      reset_timer (state w') = reset_timer (state w) \<and>
      cout w' = cout w \<and> loop_break w' = loop_break w"
proof -
  let ?w = "w\<lparr>state := IncreaseScore (state w)\<rparr>"
  have h': "heap ?w sock = Some s" and ms': "1 \<le> max_seconds (state ?w)"
    using h ms by (simp_all add: IncreaseScore_def Let_def)
  from UpdateTimeout_eq [OF h' bv ms', of tv' g_sec g_usec] clk(1)
  obtain nx where
    u: "UpdateTimeout ?w sock tv' g_sec g_usec =
      Inr (?w\<lparr>heap := (heap ?w)(sock \<mapsto> s\<lparr>sock_next := nx,
             sock_buf := Some (bev\<lparr>bev_output := bev_output bev @
               status_line sec usec (score (state ?w)) (max_score (state ?w))\<rparr>)\<rparr>)\<rparr>)"
    and nx: "usecs nx = usecs tv' + sec * 1000000 + usec" "0 \<le> tv_usec nx" "tv_usec nx < 1000000"
    by (auto simp: sec_def usec_def IncreaseScore_def Let_def)
  have rs: "0 \<le> sec" "sec < max_seconds (state w)"
    using uniform_int_distribution_range [of 0 "max_seconds (state w) - 1" g_sec] ms
    by (simp_all add: sec_def)
  have ru: "0 \<le> usec" "usec < 1000000"
    using uniform_int_distribution_range [of 0 999999 g_usec] by (simp_all add: usec_def)
  have "OnRead b w sock input tv tv' g_sec g_usec = UpdateTimeout ?w sock tv' g_sec g_usec"
    using h r rd by (rule OnRead_tick)
  with u nx rs ru show ?thesis
    by (simp add: IncreaseScore_def Let_def)
qed

theorem tick_after_deadline_witness:
  "heap two_connections 1 =
     Some \<lparr>sock_next = \<lparr>tv_sec = 100, tv_usec = 0\<rparr>,
           sock_buf = Some \<lparr>bev_fd = 7, bev_output = ''0.000000 0 1'' @ [CHR 0x0A],
                            bev_enabled = True\<rparr>\<rparr> \<and>
   IsReady \<lparr>sock_next = \<lparr>tv_sec = 100, tv_usec = 0\<rparr>,
            sock_buf = Some \<lparr>bev_fd = 7, bev_output = ''0.000000 0 1'' @ [CHR 0x0A],
                             bev_enabled = True\<rparr>\<rparr>
     \<lparr>tv_sec = 100, tv_usec = 500000\<rparr> \<and>
   max_seconds (state two_connections) = 5 \<and>
   uniform_int_distribution 0 (5 - 1) 7 = 2 \<and>
   uniform_int_distribution 0 999999 1500000 = 500000 \<and>
   (\<exists>w' s' bev'.
      OnRead \<lparr>DEBUG = False, NDEBUG = False\<rparr> two_connections 1 ''a''
        \<lparr>tv_sec = 100, tv_usec = 500000\<rparr> \<lparr>tv_sec = 100, tv_usec = 500001\<rparr> 7 1500000 = Inr w' \<and>
      score (state w') = 1 \<and> max_score (state w') = 1 \<and>
      heap w' 1 = Some s' \<and> usecs (sock_next s') = 103000001 \<and>
      sock_buf s' = Some bev' \<and>
      bev_output bev' = ''0.000000 0 1'' @ [CHR 0x0A] @ ''2.500000 1 1'' @ [CHR 0x0A] \<and>
      heap w' 2 = heap two_connections 2 \<and> sockets (state w') = [2, 1] \<and>
      reset_timer (state w') =
          Some \<lparr>ev_ptr = 50,
                ev_timeout = \<lparr>tv_sec = 60, tv_usec = 0\<rparr>,
                ev_added = \<lparr>tv_sec = 100, tv_usec = 0\<rparr>\<rparr> \<and>
      cout w' = ''1 / 1'' @ [CHR 0x0A])"
proof -
  let ?bev = "\<lparr>bev_fd = 7, bev_output = ''0.000000 0 1'' @ [CHR 0x0A], bev_enabled = True\<rparr>"
  let ?s = "\<lparr>sock_next = \<lparr>tv_sec = 100, tv_usec = 0\<rparr>, sock_buf = Some ?bev\<rparr>"
  let ?b = "\<lparr>DEBUG = False, NDEBUG = False\<rparr>"
  have h: "heap two_connections 1 = Some ?s"
    by (simp add: two_connections_def)
  have bv: "sock_buf ?s = Some ?bev"
    by simp
  have r: "IsReady ?s \<lparr>tv_sec = 100, tv_usec = 500000\<rparr>"
    by (simp add: IsReady_def)
  have rd: "evaluated ?b ''a''"
    by (simp add: evaluated_def)
  have ms: "1 \<le> max_seconds (state two_connections)" "max_seconds (state two_connections) = 5"
    by (simp_all add: two_connections_def)
  have clk: "0 \<le> tv_usec \<lparr>tv_sec = 100, tv_usec = 500001\<rparr>"
    "tv_usec \<lparr>tv_sec = 100, tv_usec = 500001\<rparr> < 1000000"
    by simp_all
  have d: "uniform_int_distribution 0 (5 - 1) 7 = 2"
    "uniform_int_distribution 0 999999 1500000 = 500000"
    by (simp_all add: uniform_int_distribution_def)
  have st: "score (state two_connections) = 0" "max_score (state two_connections) = 1"
    "sockets (state two_connections) = [2, 1]" "cout two_connections = ''1 / 1'' @ [CHR 0x0A]"
    "reset_timer (state two_connections) =
        Some \<lparr>ev_ptr = 50,
              ev_timeout = \<lparr>tv_sec = 60, tv_usec = 0\<rparr>,
              ev_added = \<lparr>tv_sec = 100, tv_usec = 0\<rparr>\<rparr>"
    by (simp_all add: two_connections_def)
  from tick_after_deadline [OF h bv r rd ms(1) clk, of 7 1500000]
  show ?thesis
    unfolding ms(2) d st usecs_def using h r ms(2) d printed(5) by auto
qed

subsection \<open>The status line\<close>

text \<open>
  Claim C6. On connect (\<open>OnAccept\<close> with a bufferevent) and after every tick the
  connection's output grows by exactly one line
  \<^verbatim>\<open><sec>.<usec6> <score> <maxScore>\<close> and a newline, where \<open>sec\<close> and \<open>usec\<close> are the whole
  seconds and the remaining microseconds of the delay between the clock and the new
  deadline, \<open>sec\<close> is printed without sign, \<open>usec\<close> is padded with zeros to six digits, and
  the score and the maximum are those of the state in which the new deadline is armed:
  on connect the values \<open>OnAccept\<close> found, after a tick the values that include the tick
  just counted and not the tick the new deadline is for.
\<close>

theorem status_line_on_connect_and_tick:
  fixes w :: world and g_sec g_usec :: int
  defines "sec \<equiv> uniform_int_distribution 0 (max_seconds (state w) - 1) g_sec"
    and "usec \<equiv> uniform_int_distribution 0 999999 g_usec"
  assumes ms: "1 \<le> max_seconds (state w)"
    and clk: "0 \<le> tv_usec tv" "tv_usec tv < 1000000"
  shows "(\<exists>w' s' bev'.
            OnAccept b w fd p True tv g_sec g_usec ep lt = Inr w' \<and>
            heap w' p = Some s' \<and> sock_buf s' = Some bev' \<and>
            bev_output bev' = status_line sec usec (score (state w')) (max_score (state w')) \<and>
            score (state w') = score (state w) \<and> max_score (state w') = max_score (state w) \<and>
            (usecs (sock_next s') - usecs tv) div 1000000 = sec \<and>
            (usecs (sock_next s') - usecs tv) mod 1000000 = usec) \<and>
         (heap w sock = Some s \<and> sock_buf s = Some bev \<and> IsReady s tv0 \<and>
            evaluated b input \<longrightarrow>
          (\<exists>w' s' bev'.
            OnRead b w sock input tv0 tv g_sec g_usec = Inr w' \<and>
            heap w' sock = Some s' \<and> sock_buf s' = Some bev' \<and>
            bev_output bev' =
              bev_output bev @ status_line sec usec (score (state w')) (max_score (state w')) \<and>
            score (state w') = score (state w) + 1 \<and>
            max_score (state w') = max (score (state w) + 1) (max_score (state w)) \<and>
            (usecs (sock_next s') - usecs tv) div 1000000 = sec \<and>
            (usecs (sock_next s') - usecs tv) mod 1000000 = usec)) \<and>
         status_line sec usec sc msc =
           dec (nat sec) @ ''.'' @
           replicate (6 - length (dec (nat usec))) CHR ''0'' @ dec (nat usec) @
           '' '' @ printf_d sc @ '' '' @ printf_d msc @ [CHR 0x0A] \<and>
         length (replicate (6 - length (dec (nat usec))) CHR ''0'' @ dec (nat usec)) = 6 \<and>
         (\<exists>body. status_line sec usec sc msc = body @ [CHR 0x0A] \<and> CHR 0x0A \<notin> set body)"
proof (intro conjI impI)
  have rs: "0 \<le> sec"
    using uniform_int_distribution_range [of 0 "max_seconds (state w) - 1" g_sec] ms
    by (simp add: sec_def)
  have ru: "0 \<le> usec" "usec < 1000000"
    using uniform_int_distribution_range [of 0 999999 g_usec] by (simp_all add: usec_def)
  note dp = delay_parts [OF ru, of sec]
  from OnAccept_eq [OF ms, of b fd p tv g_sec g_usec ep lt] clk(1)
  obtain nx where a: "OnAccept b w fd p True tv g_sec g_usec ep lt =
      Inr (w\<lparr>state := (state w)\<lparr>
               reset_timer := (case reset_timer (state w) of
                                 None \<Rightarrow>
                                     Some \<lparr>ev_ptr = ep,
                                           ev_timeout = \<lparr>tv_sec = max_before_reset (state w), tv_usec = 0\<rparr>,
                                           ev_added = lt\<rparr>
                               | Some ev \<Rightarrow> Some ev),
               sockets := List.insert p (sockets (state w))\<rparr>,
             heap := (heap w)(p \<mapsto> \<lparr>sock_next = nx,
               sock_buf = Some \<lparr>bev_fd = fd,
                 bev_output = status_line sec usec (score (state w)) (max_score (state w)),
                 bev_enabled = True\<rparr>\<rparr>)\<rparr>)"
    and nx: "usecs nx - usecs tv = sec * 1000000 + usec"
    by (auto simp: sec_def usec_def)
  show "\<exists>w' s' bev'.
            OnAccept b w fd p True tv g_sec g_usec ep lt = Inr w' \<and>
            heap w' p = Some s' \<and> sock_buf s' = Some bev' \<and>
            bev_output bev' = status_line sec usec (score (state w')) (max_score (state w')) \<and>
            score (state w') = score (state w) \<and> max_score (state w') = max_score (state w) \<and>
            (usecs (sock_next s') - usecs tv) div 1000000 = sec \<and>
            (usecs (sock_next s') - usecs tv) mod 1000000 = usec"
    using ru by (simp add: a nx dp)
  show "status_line sec usec sc msc =
           dec (nat sec) @ ''.'' @
           replicate (6 - length (dec (nat usec))) CHR ''0'' @ dec (nat usec) @
           '' '' @ printf_d sc @ '' '' @ printf_d msc @ [CHR 0x0A]"
    using rs ru by (simp add: status_line_def printf_d_nonneg printf_06d_usec(1))
  show "length (replicate (6 - length (dec (nat usec))) CHR ''0'' @ dec (nat usec)) = 6"
    using printf_06d_usec [OF ru] by simp
  show "\<exists>body. status_line sec usec sc msc = body @ [CHR 0x0A] \<and> CHR 0x0A \<notin> set body"
    by (rule status_line_one_line)
  assume t: "heap w sock = Some s \<and> sock_buf s = Some bev \<and> IsReady s tv0 \<and>
            evaluated b input"
  let ?w = "w\<lparr>state := IncreaseScore (state w)\<rparr>"
  have h': "heap ?w sock = Some s" and ms': "1 \<le> max_seconds (state ?w)"
    and bv: "sock_buf s = Some bev"
    using t ms by (simp_all add: IncreaseScore_def Let_def)
  from UpdateTimeout_eq [OF h' bv ms', of tv g_sec g_usec] clk(1)
  obtain nx' where
    u: "UpdateTimeout ?w sock tv g_sec g_usec =
      Inr (?w\<lparr>heap := (heap ?w)(sock \<mapsto> s\<lparr>sock_next := nx',
             sock_buf := Some (bev\<lparr>bev_output := bev_output bev @
               status_line sec usec (score (state ?w)) (max_score (state ?w))\<rparr>)\<rparr>)\<rparr>)"
    and nx': "usecs nx' - usecs tv = sec * 1000000 + usec"
    by (auto simp: sec_def usec_def IncreaseScore_def Let_def)
  have "OnRead b w sock input tv0 tv g_sec g_usec = UpdateTimeout ?w sock tv g_sec g_usec"
    using t by (intro OnRead_tick) blast+
  with u nx' dp ru show "\<exists>w' s' bev'.
            OnRead b w sock input tv0 tv g_sec g_usec = Inr w' \<and>
            heap w' sock = Some s' \<and> sock_buf s' = Some bev' \<and>
            bev_output bev' =
              bev_output bev @ status_line sec usec (score (state w')) (max_score (state w')) \<and>
            score (state w') = score (state w) + 1 \<and>
            max_score (state w') = max (score (state w) + 1) (max_score (state w)) \<and>
            (usecs (sock_next s') - usecs tv) div 1000000 = sec \<and>
            (usecs (sock_next s') - usecs tv) mod 1000000 = usec"
    by (simp add: IncreaseScore_def Let_def)
qed

theorem status_line_on_connect_and_tick_witness:
  "1 \<le> max_seconds (state two_connections) \<and>
   0 \<le> tv_usec \<lparr>tv_sec = 100, tv_usec = 500001\<rparr> \<and>
   tv_usec \<lparr>tv_sec = 100, tv_usec = 500001\<rparr> < 1000000 \<and>
   (\<exists>w' s' bev'.
      OnAccept \<lparr>DEBUG = False, NDEBUG = False\<rparr> two_connections 9 3 True
        \<lparr>tv_sec = 100, tv_usec = 500001\<rparr> 7 1500000 52 \<lparr>tv_sec = 100, tv_usec = 500001\<rparr> =
        Inr w' \<and>
      heap w' 3 = Some s' \<and> sock_buf s' = Some bev' \<and>
      bev_output bev' = ''2.500000 0 1'' @ [CHR 0x0A] \<and>
      score (state w') = 0 \<and> max_score (state w') = 1 \<and>
      (usecs (sock_next s') - usecs \<lparr>tv_sec = 100, tv_usec = 500001\<rparr>) div 1000000 = 2 \<and>
      (usecs (sock_next s') - usecs \<lparr>tv_sec = 100, tv_usec = 500001\<rparr>) mod 1000000 = 500000) \<and>
   heap two_connections 1 =
     Some \<lparr>sock_next = \<lparr>tv_sec = 100, tv_usec = 0\<rparr>,
           sock_buf = Some \<lparr>bev_fd = 7, bev_output = ''0.000000 0 1'' @ [CHR 0x0A],
                            bev_enabled = True\<rparr>\<rparr> \<and>
   IsReady \<lparr>sock_next = \<lparr>tv_sec = 100, tv_usec = 0\<rparr>,
            sock_buf = Some \<lparr>bev_fd = 7, bev_output = ''0.000000 0 1'' @ [CHR 0x0A],
                             bev_enabled = True\<rparr>\<rparr>
     \<lparr>tv_sec = 100, tv_usec = 500000\<rparr> \<and>
   (\<exists>w' s' bev'.
      OnRead \<lparr>DEBUG = False, NDEBUG = False\<rparr> two_connections 1 ''a''
        \<lparr>tv_sec = 100, tv_usec = 500000\<rparr> \<lparr>tv_sec = 100, tv_usec = 500001\<rparr> 7 1500000 = Inr w' \<and>
      heap w' 1 = Some s' \<and> sock_buf s' = Some bev' \<and>
      bev_output bev' = ''0.000000 0 1'' @ [CHR 0x0A] @ ''2.500000 1 1'' @ [CHR 0x0A] \<and>
      score (state w') = 1 \<and> max_score (state w') = 1) \<and>
   status_line 2 500000 0 1 = ''2.500000 0 1'' @ [CHR 0x0A]"
proof -
  let ?bev = "\<lparr>bev_fd = 7, bev_output = ''0.000000 0 1'' @ [CHR 0x0A], bev_enabled = True\<rparr>"
  let ?s = "\<lparr>sock_next = \<lparr>tv_sec = 100, tv_usec = 0\<rparr>, sock_buf = Some ?bev\<rparr>"
  let ?b = "\<lparr>DEBUG = False, NDEBUG = False\<rparr>"
  let ?tv = "\<lparr>tv_sec = 100, tv_usec = 500001\<rparr>"
  have ms: "1 \<le> max_seconds (state two_connections)" "max_seconds (state two_connections) = 5"
    by (simp_all add: two_connections_def)
  have clk: "0 \<le> tv_usec ?tv" "tv_usec ?tv < 1000000"
    by simp_all
  have h: "heap two_connections 1 = Some ?s"
    by (simp add: two_connections_def)
  have r: "IsReady ?s \<lparr>tv_sec = 100, tv_usec = 500000\<rparr>"
    by (simp add: IsReady_def)
  have d: "uniform_int_distribution 0 (5 - 1) 7 = 2"
    "uniform_int_distribution 0 999999 1500000 = 500000"
    by (simp_all add: uniform_int_distribution_def)
  have st: "score (state two_connections) = 0" "max_score (state two_connections) = 1"
    by (simp_all add: two_connections_def)
  from status_line_on_connect_and_tick
    [OF ms(1) clk, of ?b 9 3 7 1500000 52 ?tv 1 ?s ?bev "\<lparr>tv_sec = 100, tv_usec = 500000\<rparr>" "''a''" 0 1]
  show ?thesis
    unfolding ms(2) d st using h r ms(1) printed(4,5) by (auto simp: evaluated_def)
qed

subsection \<open>The reset coordinator\<close>

text \<open>
  Claim C1. In every state the loop can reach, whichever of the two triggers runs the
  reset coordinator, the expiry of the timer (\<open>Reset\<close>) or a read before the deadline
  (\<open>OnRead\<close>), the call returns and does four things in this order. First the loop
  destroys every connection of the set: in the state \<open>w1\<close> after it the set is empty and
  no object is left, while the output, the score and the timer are as before. Then
  \<open>ResetAndPrintScore\<close> appends exactly one line, made of the score before the reset and
  the maximum, and sets the score to zero: in its state \<open>w2\<close> the timer is still armed.
  Last the timer is freed and the handle cleared, which gives the state \<open>w3\<close> that the
  trigger returns.
\<close>

theorem reset_coordinator:
  assumes reach: "run b (RunLoop timeout max_timeout) evs = Inr w"
    and trig: "trigger = Reset w \<and> reset_timer (state w) \<noteq> None \<or>
               trigger = OnRead b w sock input tv tv' g_sec g_usec \<and>
                 (\<exists>s. heap w sock = Some s \<and> \<not> IsReady s tv) \<and>
                 evaluated b input"
  shows "\<exists>w1 w2 w3.
      CloseAllSockets_loop w = Inr w1 \<and>
        sockets (state w1) = [] \<and> (\<forall>p. heap w1 p = None) \<and>
        cout w1 = cout w \<and> score (state w1) = score (state w) \<and>
        reset_timer (state w1) = reset_timer (state w) \<and>
      w2 = ResetAndPrintScore w1 \<and>
        cout w2 = cout w @ printf_d (score (state w)) @ '' / '' @
                  printf_d (max_score (state w)) @ [CHR 0x0A] \<and>
        CHR 0x0A \<notin> set (printf_d (score (state w)) @ '' / '' @ printf_d (max_score (state w))) \<and>
        score (state w2) = 0 \<and> max_score (state w2) = max_score (state w) \<and>
        reset_timer (state w2) = reset_timer (state w) \<and> reset_timer (state w2) \<noteq> None \<and>
      w3 = w2\<lparr>state := (state w2)\<lparr>reset_timer := None\<rparr>\<rparr> \<and>
      CloseAllSockets w = Inr w3 \<and> trigger = Inr w3 \<and>
        sockets (state w3) = [] \<and> (\<forall>p. heap w3 p = None) \<and>
        cout w3 = cout w2 \<and> score (state w3) = 0 \<and>
        max_score (state w3) = max_score (state w) \<and> reset_timer (state w3) = None"
proof -
  from reach have c: "consistent w"
    by (rule consistent_run)
  from trig consider
      (timer) "trigger = Reset w" "reset_timer (state w) \<noteq> None"
    | (violation) s where "trigger = OnRead b w sock input tv tv' g_sec g_usec"
        "heap w sock = Some s" "\<not> IsReady s tv" "evaluated b input"
    by blast
  then have "trigger = CloseAllSockets w \<and> reset_timer (state w) \<noteq> None"
  proof cases
    case timer
    then show ?thesis by (simp add: Reset_def)
  next
    case violation
    from violation(2) have "heap w sock \<noteq> None" by simp
    from consistent_timer [OF c this] violation(1) OnRead_violation [OF violation(2-4)]
    show ?thesis by auto
  qed
  then obtain ev where t: "trigger = CloseAllSockets w" and ev: "reset_timer (state w) = Some ev"
    by auto
  note l = consistent_sockets_live [OF c]
  define w1 where "w1 = w\<lparr>state := (state w)\<lparr>sockets := []\<rparr>,
              heap := (\<lambda>p. if p \<in> set (sockets (state w)) then None else heap w p)\<rparr>"
  have loop: "CloseAllSockets_loop w = Inr w1"
    unfolding w1_def by (rule CloseAllSockets_loop_eq [OF l])
  have gone: "heap w1 p = None" for p
    using c by (auto simp: w1_def consistent_def)
  have nl: "CHR 0x0A \<notin> set (printf_d (score (state w)) @ '' / '' @ printf_d (max_score (state w)))"
    by (simp add: printf_d_no_newline)
  have "CloseAllSockets w =
      Inr ((ResetAndPrintScore w1)\<lparr>state := (state (ResetAndPrintScore w1))\<lparr>reset_timer := None\<rparr>\<rparr>)"
    using ev by (simp add: CloseAllSockets_def loop Let_def) (simp add: w1_def ResetAndPrintScore_def)
  with t loop gone nl ev show ?thesis
    by (simp add: ResetAndPrintScore_def Let_def) (simp add: w1_def)
qed

theorem reset_coordinator_witness:
  "run \<lparr>DEBUG = False, NDEBUG = False\<rparr> (RunLoop 5 60) history = Inr two_connections \<and>
   reset_timer (state two_connections) =
       Some \<lparr>ev_ptr = 50,
             ev_timeout = \<lparr>tv_sec = 60, tv_usec = 0\<rparr>,
             ev_added = \<lparr>tv_sec = 100, tv_usec = 0\<rparr>\<rparr> \<and>
   score (state two_connections) = 0 \<and> max_score (state two_connections) = 1 \<and>
   cout two_connections = ''1 / 1'' @ [CHR 0x0A] \<and>
   (\<exists>w3. Reset two_connections = Inr w3 \<and> sockets (state w3) = [] \<and>
      heap w3 1 = None \<and> heap w3 2 = None \<and>
      cout w3 = ''1 / 1'' @ [CHR 0x0A] @ ''0 / 1'' @ [CHR 0x0A] \<and>
      score (state w3) = 0 \<and> max_score (state w3) = 1 \<and> reset_timer (state w3) = None)"
proof -
  let ?b = "\<lparr>DEBUG = False, NDEBUG = False\<rparr>"
  have st: "reset_timer (state two_connections) =
      Some \<lparr>ev_ptr = 50,
            ev_timeout = \<lparr>tv_sec = 60, tv_usec = 0\<rparr>,
            ev_added = \<lparr>tv_sec = 100, tv_usec = 0\<rparr>\<rparr>"
    "score (state two_connections) = 0" "max_score (state two_connections) = 1"
    "cout two_connections = ''1 / 1'' @ [CHR 0x0A]"
    by (simp_all add: two_connections_def)
  have trig: "Reset two_connections = Reset two_connections \<and>
      reset_timer (state two_connections) \<noteq> None \<or>
    Reset two_connections = OnRead ?b two_connections 2 ''a'' \<lparr>tv_sec = 100, tv_usec = 500000\<rparr>
        \<lparr>tv_sec = 100, tv_usec = 500000\<rparr> 0 0 \<and>
      (\<exists>s. heap two_connections 2 = Some s \<and>
         \<not> IsReady s \<lparr>tv_sec = 100, tv_usec = 500000\<rparr>) \<and>
      evaluated ?b ''a''"
    by (simp add: st)
  from reset_coordinator [OF run_history trig]
  show ?thesis
    unfolding st using run_history st by (auto simp: printed_scores)
qed

subsection \<open>A read before the deadline\<close>

text \<open>
  Claim C3. In every state the loop can reach, a read callback that runs with the clock
  strictly before the connection's deadline, with bytes that let \<open>OnRead\<close> reach the test
  of the deadline, is a call of the reset coordinator, and it is what the loop runs when
  the socket is readable and the read returns bytes: every connection is destroyed, those
  that did nothing included, a result line is written, the score returns to zero and the
  timer is cleared. The callback returns a state and no fault, \<^verbatim>\<open>event_base_loopbreak\<close> has not
  been called, and the loop serves the next connection with \<open>OnAccept\<close>.
\<close>

theorem violation_resets_everyone:
  assumes reach: "run b (RunLoop timeout max_timeout) evs = Inr w"
    and h: "heap w sock = Some s" and v: "\<not> IsReady s tv"
    and rd: "evaluated b input"
  shows "\<exists>w'. OnRead b w sock input tv tv' g_sec g_usec = Inr w' \<and>
      (input \<noteq> [] \<longrightarrow> step b w (Readable sock input tv tv' g_sec g_usec) = Inr w') \<and>
      CloseAllSockets w = Inr w' \<and>
      sockets (state w') = [] \<and> (\<forall>p. heap w' p = None) \<and>
      score (state w') = 0 \<and> max_score (state w') = max_score (state w) \<and>
      reset_timer (state w') = None \<and>
      cout w' = cout w @ printf_d (score (state w)) @ '' / '' @
                printf_d (max_score (state w)) @ [CHR 0x0A] \<and>
      \<not> loop_break w' \<and>
      (\<forall>fd p ok tv2 g g' ep lt.
         step b w' (Accepted fd p ok tv2 g g' ep lt) = OnAccept b w' fd p ok tv2 g g' ep lt)"
proof -
  from reach have c: "consistent w"
    by (rule consistent_run)
  from h have ne0: "heap w sock \<noteq> None" by simp
  from consistent_timer [OF c ne0] obtain ev where ev: "reset_timer (state w) = Some ev" ..
  from c ne0 have nb: "\<not> loop_break w"
    by (auto simp: consistent_def)
  have r: "OnRead b w sock input tv tv' g_sec g_usec = CloseAllSockets w"
    using h v rd by (rule OnRead_violation)
  with nb ne0 have s: "step b w (Readable sock input tv tv' g_sec g_usec) = CloseAllSockets w"
    if "input \<noteq> []"
    using that by (simp add: step_def)
  note e = CloseAllSockets_eq [OF consistent_sockets_live [OF c] ev]
  have gone: "(if p \<in> set (sockets (state w)) then None else heap w p) = None" for p
    using c by (auto simp: consistent_def)
  show ?thesis
    using nb h by (simp add: r e gone step_def)
qed

theorem violation_resets_everyone_witness:
  "run \<lparr>DEBUG = False, NDEBUG = False\<rparr> (RunLoop 5 60) history = Inr two_connections \<and>
   heap two_connections 2 =
     Some \<lparr>sock_next = \<lparr>tv_sec = 101, tv_usec = 0\<rparr>,
           sock_buf = Some \<lparr>bev_fd = 8, bev_output = ''0.000000 0 1'' @ [CHR 0x0A],
                            bev_enabled = True\<rparr>\<rparr> \<and>
   \<not> IsReady \<lparr>sock_next = \<lparr>tv_sec = 101, tv_usec = 0\<rparr>,
            sock_buf = Some \<lparr>bev_fd = 8, bev_output = ''0.000000 0 1'' @ [CHR 0x0A],
                             bev_enabled = True\<rparr>\<rparr>
     \<lparr>tv_sec = 100, tv_usec = 500000\<rparr> \<and>
   live two_connections 1 \<and>
   (\<exists>w'. step \<lparr>DEBUG = False, NDEBUG = False\<rparr> two_connections
            (Readable 2 ''a'' \<lparr>tv_sec = 100, tv_usec = 500000\<rparr>
               \<lparr>tv_sec = 100, tv_usec = 500000\<rparr> 0 0) = Inr w' \<and>
      heap w' 1 = None \<and> heap w' 2 = None \<and> sockets (state w') = [] \<and>
      score (state w') = 0 \<and> max_score (state w') = 1 \<and> reset_timer (state w') = None \<and>
      cout w' = ''1 / 1'' @ [CHR 0x0A] @ ''0 / 1'' @ [CHR 0x0A] \<and> \<not> loop_break w')"
proof -
  let ?b = "\<lparr>DEBUG = False, NDEBUG = False\<rparr>"
  let ?s = "\<lparr>sock_next = \<lparr>tv_sec = 101, tv_usec = 0\<rparr>,
           sock_buf = Some \<lparr>bev_fd = 8, bev_output = ''0.000000 0 1'' @ [CHR 0x0A],
                            bev_enabled = True\<rparr>\<rparr>"
  have h: "heap two_connections 2 = Some ?s"
    by (simp add: two_connections_def)
  have v: "\<not> IsReady ?s \<lparr>tv_sec = 100, tv_usec = 500000\<rparr>"
    by (simp add: IsReady_def)
  have rd: "evaluated ?b ''a''"
    by (simp add: evaluated_def)
  have st: "score (state two_connections) = 0" "max_score (state two_connections) = 1"
    "cout two_connections = ''1 / 1'' @ [CHR 0x0A]"
    by (simp_all add: two_connections_def)
  have l: "live two_connections 1"
    by (simp add: live_def two_connections_def)
  from violation_resets_everyone [OF run_history h v rd, of "\<lparr>tv_sec = 100, tv_usec = 500000\<rparr>" 0 0]
  show ?thesis
    unfolding st using run_history h v l by (auto simp: printed_scores)
qed

subsection \<open>The maximum score\<close>

text \<open>
  Claim C4. An epoch starts in a reachable state with score zero and runs through events
  none of which calls the reset coordinator. When the coordinator then runs, the maximum
  after it is the larger of the maximum at the start of the epoch and the score at the
  reset. \<open>ResetAndPrintScore\<close> leaves the maximum alone, and over any run of the loop, with
  any number of resets in it, the maximum never decreases.
\<close>

theorem max_score_high_water_mark:
  assumes reach: "run b (RunLoop timeout max_timeout) evs0 = Inr w0"
    and epoch: "run b w0 evs = Inr w1"
  shows "max_score (state w0) \<le> max_score (state w1) \<and>
         max_score (state (ResetAndPrintScore w1)) = max_score (state w1) \<and>
         (score (state w0) = 0 \<and> quiet b w0 evs \<and> reset_timer (state w1) \<noteq> None \<longrightarrow>
            (\<exists>w2. CloseAllSockets w1 = Inr w2 \<and>
               max_score (state w2) = max (max_score (state w0)) (score (state w1)) \<and>
               max_score (state w0) \<le> max_score (state w2)))"
proof (intro conjI impI)
  from reach have c0: "consistent w0"
    by (rule consistent_run)
  from c0 epoch have c1: "consistent w1"
    by (rule consistent_run_from)
  from c0 epoch show mono: "max_score (state w0) \<le> max_score (state w1)"
    by (rule run_max_score_mono)
  show "max_score (state (ResetAndPrintScore w1)) = max_score (state w1)"
    by (simp add: ResetAndPrintScore_def Let_def)
  assume a: "score (state w0) = 0 \<and> quiet b w0 evs \<and> reset_timer (state w1) \<noteq> None"
  then obtain ev where ev: "reset_timer (state w1) = Some ev"
    by auto
  from a have q: "quiet b w0 evs" and z: "score (state w0) = 0"
    by simp_all
  from c0 have "0 \<le> max_score (state w0)"
    by (simp add: consistent_def)
  with z have "max (max_score (state w0)) (score (state w0)) = max_score (state w0)"
    by simp
  then have "max_score (state w0) = max (max_score (state w0)) (score (state w0))"
    by (rule sym)
  from quiet_max_score [OF epoch q this]
  have m: "max_score (state w1) = max (max_score (state w0)) (score (state w1))" .
  have "max_score (state w0) \<le> max (max_score (state w0)) (score (state w1))"
    by simp
  with CloseAllSockets_eq [OF consistent_sockets_live [OF c1] ev] m
  show "\<exists>w2. CloseAllSockets w1 = Inr w2 \<and>
               max_score (state w2) = max (max_score (state w0)) (score (state w1)) \<and>
               max_score (state w0) \<le> max_score (state w2)"
    by simp
qed

theorem max_score_high_water_mark_witness:
  "run \<lparr>DEBUG = False, NDEBUG = False\<rparr> (RunLoop 5 60) history = Inr two_connections \<and>
   score (state two_connections) = 0 \<and> max_score (state two_connections) = 1 \<and>
   quiet \<lparr>DEBUG = False, NDEBUG = False\<rparr> two_connections
     [Readable 1 ''a'' \<lparr>tv_sec = 100, tv_usec = 5\<rparr> \<lparr>tv_sec = 100, tv_usec = 5\<rparr> 0 0,
      Readable 2 ''b'' \<lparr>tv_sec = 102, tv_usec = 0\<rparr> \<lparr>tv_sec = 102, tv_usec = 0\<rparr> 0 0] \<and>
   (\<exists>w1 w2.
      run \<lparr>DEBUG = False, NDEBUG = False\<rparr> two_connections
        [Readable 1 ''a'' \<lparr>tv_sec = 100, tv_usec = 5\<rparr> \<lparr>tv_sec = 100, tv_usec = 5\<rparr> 0 0,
         Readable 2 ''b'' \<lparr>tv_sec = 102, tv_usec = 0\<rparr> \<lparr>tv_sec = 102, tv_usec = 0\<rparr> 0 0] = Inr w1 \<and>
      score (state w1) = 2 \<and> max_score (state w1) = 2 \<and>
      reset_timer (state w1) =
          Some \<lparr>ev_ptr = 50,
                ev_timeout = \<lparr>tv_sec = 60, tv_usec = 0\<rparr>,
                ev_added = \<lparr>tv_sec = 100, tv_usec = 0\<rparr>\<rparr> \<and>
      max_score (state (ResetAndPrintScore w1)) = 2 \<and>
      CloseAllSockets w1 = Inr w2 \<and> max_score (state w2) = 2 \<and> score (state w2) = 0)"
proof -
  let ?b = "\<lparr>DEBUG = False, NDEBUG = False\<rparr>"
  let ?ticks = "[Readable 1 ''a'' \<lparr>tv_sec = 100, tv_usec = 5\<rparr> \<lparr>tv_sec = 100, tv_usec = 5\<rparr> 0 0,
      Readable 2 ''b'' \<lparr>tv_sec = 102, tv_usec = 0\<rparr> \<lparr>tv_sec = 102, tv_usec = 0\<rparr> 0 0]"
  let ?w1 = "\<lparr>state = \<lparr>max_seconds = 5, max_before_reset = 60, score = 2, max_score = 2,
        reset_timer =
            Some \<lparr>ev_ptr = 50,
                  ev_timeout = \<lparr>tv_sec = 60, tv_usec = 0\<rparr>,
                  ev_added = \<lparr>tv_sec = 100, tv_usec = 0\<rparr>\<rparr>, sockets = [2, 1]\<rparr>,
      heap = (\<lambda>p. None)
        (1 \<mapsto> \<lparr>sock_next = \<lparr>tv_sec = 100, tv_usec = 5\<rparr>,
                sock_buf = Some \<lparr>bev_fd = 7,
                  bev_output = ''0.000000 0 1'' @ [CHR 0x0A] @ ''0.000000 1 1'' @ [CHR 0x0A],
                  bev_enabled = True\<rparr>\<rparr>,
         2 \<mapsto> \<lparr>sock_next = \<lparr>tv_sec = 102, tv_usec = 0\<rparr>,
                sock_buf = Some \<lparr>bev_fd = 8,
                  bev_output = ''0.000000 0 1'' @ [CHR 0x0A] @ ''0.000000 2 2'' @ [CHR 0x0A],
                  bev_enabled = True\<rparr>\<rparr>),
      cout = ''1 / 1'' @ [CHR 0x0A], loop_break = False\<rparr>"
  have st: "score (state two_connections) = 0" "max_score (state two_connections) = 1"
    by (simp_all add: two_connections_def)
  have q: "quiet ?b two_connections ?ticks"
    by (simp add: two_connections_def resets_def callback_defs printed printed_scores)
  have r: "run ?b two_connections ?ticks = Inr ?w1"
    by (simp add: two_connections_def callback_defs printed printed_scores)
  have w1: "score (state ?w1) = 2" "max_score (state ?w1) = 2"
    "reset_timer (state ?w1) =
        Some \<lparr>ev_ptr = 50,
              ev_timeout = \<lparr>tv_sec = 60, tv_usec = 0\<rparr>,
              ev_added = \<lparr>tv_sec = 100, tv_usec = 0\<rparr>\<rparr>"
    by simp_all
  from max_score_high_water_mark [OF run_history r] st q w1
  obtain w2 where "CloseAllSockets ?w1 = Inr w2" "max_score (state w2) = 2"
    "max_score (state (ResetAndPrintScore ?w1)) = 2"
    by auto
  moreover from this(1) have "score (state w2) = 0"
    by (auto simp: CloseAllSockets_def Let_def ResetAndPrintScore_def split: sum.splits option.splits)
  ultimately show ?thesis
    using run_history st q r w1 by blast
qed

subsection \<open>The reset timer\<close>

text \<open>
  Claim C5. In every reachable state the timer handle is set exactly when the history of
  the run says so: a connection has been accepted since the last reset, or since the start
  when there was none. \<open>OnAccept\<close>, called in any state with the timer set, returns with
  the same timer event, whatever address \<^verbatim>\<open>evtimer_new\<close> and whatever clock \<^verbatim>\<open>evtimer_add\<close>
  would give it: the event keeps its address, its timeout and the clock at which it was
  added, so it is neither armed again nor extended, and it is due when it was due before.
  Called with the timer clear, \<open>OnAccept\<close> arms the event at the address and the clock it
  is given, with \<open>max_before_reset\<close> seconds. From a reachable state, a step that does not
  call the reset coordinator leaves a set timer as it is, a step clears a set timer
  exactly when its callback calls the reset coordinator, and every such step does.
\<close>

theorem reset_timer_armed_iff:
  assumes reach: "run b (RunLoop timeout max_timeout) evs = Inr w"
  shows "(reset_timer (state w) \<noteq> None) =
           accepted_since_reset b (RunLoop timeout max_timeout) False evs \<and>
         (\<forall>v fd p ok tv g_sec g_usec ep lt v'.
            OnAccept b v fd p ok tv g_sec g_usec ep lt = Inr v' \<longrightarrow>
              (reset_timer (state v) \<noteq> None \<longrightarrow>
                 reset_timer (state v') = reset_timer (state v)) \<and>
              (reset_timer (state v) = None \<longrightarrow>
                 reset_timer (state v') =
                   Some \<lparr>ev_ptr = ep,
                         ev_timeout = \<lparr>tv_sec = max_before_reset (state v), tv_usec = 0\<rparr>,
                         ev_added = lt\<rparr>)) \<and>
         (\<forall>e w'. step b w e = Inr w' \<and> \<not> resets b w e \<and> reset_timer (state w) \<noteq> None \<longrightarrow>
            reset_timer (state w') = reset_timer (state w)) \<and>
         (\<forall>e w'. step b w e = Inr w' \<longrightarrow>
            (resets b w e \<longleftrightarrow>
               reset_timer (state w) \<noteq> None \<and> reset_timer (state w') = None)) \<and>
         (\<forall>e. resets b w e \<longrightarrow>
            (\<exists>w'. step b w e = Inr w' \<and> reset_timer (state w') = None))"
proof (intro conjI allI impI)
  from reach have c: "consistent w"
    by (rule consistent_run)
  have "reset_timer (state (RunLoop timeout max_timeout)) = None"
    by (simp add: RunLoop_def GlobalState_ctor_def)
  with armed_iff_accepted [OF consistent_RunLoop reach]
  show "(reset_timer (state w) \<noteq> None) =
           accepted_since_reset b (RunLoop timeout max_timeout) False evs"
    by simp
  show "reset_timer (state v') = reset_timer (state v)"
    if "OnAccept b v fd p ok tv g_sec g_usec ep lt = Inr v'" "reset_timer (state v) \<noteq> None"
    for v fd p ok tv g_sec g_usec ep lt v'
    using OnAccept_Inr(1) [OF that(1)] that(2) by auto
  show "reset_timer (state v') =
      Some \<lparr>ev_ptr = ep, ev_timeout = \<lparr>tv_sec = max_before_reset (state v), tv_usec = 0\<rparr>,
            ev_added = lt\<rparr>"
    if "OnAccept b v fd p ok tv g_sec g_usec ep lt = Inr v'" "reset_timer (state v) = None"
    for v fd p ok tv g_sec g_usec ep lt v'
    using OnAccept_Inr(1) [OF that(1)] that(2) by auto
  show "reset_timer (state w') = reset_timer (state w)"
    if "step b w e = Inr w' \<and> \<not> resets b w e \<and> reset_timer (state w) \<noteq> None" for e w'
    using that step_quiet(3) [of b w e w'] by blast
  show "resets b w e \<longleftrightarrow> reset_timer (state w) \<noteq> None \<and> reset_timer (state w') = None"
    if s: "step b w e = Inr w'" for e w'
  proof (cases "resets b w e")
    case True
    from step_resets_fields [OF c True] s True show ?thesis by auto
  next
    case False
    have "\<not> (reset_timer (state w) \<noteq> None \<and> reset_timer (state w') = None)"
    proof
      assume a: "reset_timer (state w) \<noteq> None \<and> reset_timer (state w') = None"
      then have "reset_timer (state w') = reset_timer (state w)"
        by (intro step_quiet(3) [OF False s]) simp
      with a show False by auto
    qed
    with False show ?thesis by simp
  qed
  show "\<exists>w'. step b w e = Inr w' \<and> reset_timer (state w') = None" if "resets b w e" for e
    using step_resets_fields [OF c that] by blast
qed

theorem reset_timer_armed_iff_witness:
  "run \<lparr>DEBUG = False, NDEBUG = False\<rparr> (RunLoop 5 60) history = Inr two_connections \<and>
   reset_timer (state two_connections) =
       Some \<lparr>ev_ptr = 50,
             ev_timeout = \<lparr>tv_sec = 60, tv_usec = 0\<rparr>,
             ev_added = \<lparr>tv_sec = 100, tv_usec = 0\<rparr>\<rparr> \<and>
   accepted_since_reset \<lparr>DEBUG = False, NDEBUG = False\<rparr> (RunLoop 5 60) False history \<and>
   \<not> accepted_since_reset \<lparr>DEBUG = False, NDEBUG = False\<rparr> (RunLoop 5 60) False (take 3 history) \<and>
   (\<exists>w'. OnAccept \<lparr>DEBUG = False, NDEBUG = False\<rparr> two_connections 9 3 True
            \<lparr>tv_sec = 102, tv_usec = 0\<rparr> 0 0 52 \<lparr>tv_sec = 102, tv_usec = 0\<rparr> = Inr w' \<and>
      reset_timer (state w') =
          Some \<lparr>ev_ptr = 50,
                ev_timeout = \<lparr>tv_sec = 60, tv_usec = 0\<rparr>,
                ev_added = \<lparr>tv_sec = 100, tv_usec = 0\<rparr>\<rparr>) \<and>
   due \<lparr>ev_ptr = 50, ev_timeout = \<lparr>tv_sec = 60, tv_usec = 0\<rparr>,
        ev_added = \<lparr>tv_sec = 100, tv_usec = 0\<rparr>\<rparr> \<lparr>tv_sec = 160, tv_usec = 0\<rparr> \<and>
   \<not> due \<lparr>ev_ptr = 50, ev_timeout = \<lparr>tv_sec = 60, tv_usec = 0\<rparr>,
          ev_added = \<lparr>tv_sec = 100, tv_usec = 0\<rparr>\<rparr> \<lparr>tv_sec = 159, tv_usec = 999999\<rparr> \<and>
   resets \<lparr>DEBUG = False, NDEBUG = False\<rparr> two_connections
     (TimerExpired \<lparr>tv_sec = 160, tv_usec = 0\<rparr>) \<and>
   (\<exists>w'. step \<lparr>DEBUG = False, NDEBUG = False\<rparr> two_connections
     (TimerExpired \<lparr>tv_sec = 160, tv_usec = 0\<rparr>) = Inr w' \<and>
      reset_timer (state w') = None)"
proof -
  let ?b = "\<lparr>DEBUG = False, NDEBUG = False\<rparr>"
  have st: "reset_timer (state two_connections) =
      Some \<lparr>ev_ptr = 50,
            ev_timeout = \<lparr>tv_sec = 60, tv_usec = 0\<rparr>,
            ev_added = \<lparr>tv_sec = 100, tv_usec = 0\<rparr>\<rparr>"
    "1 \<le> max_seconds (state two_connections)"
    by (simp_all add: two_connections_def)
  have r: "resets ?b two_connections
     (TimerExpired \<lparr>tv_sec = 160, tv_usec = 0\<rparr>)"
    by (simp add: resets_def two_connections_def due_def usecs_def)
  have early: "\<not> accepted_since_reset ?b (RunLoop 5 60) False (take 3 history)"
    by (simp add: history_def resets_def accepts_def callback_defs printed printed_scores)
  from OnAccept_eq [OF st(2), of ?b 9 3 "\<lparr>tv_sec = 102, tv_usec = 0\<rparr>" 0 0 52
      "\<lparr>tv_sec = 102, tv_usec = 0\<rparr>"]
  obtain w' where a: "OnAccept ?b two_connections 9 3 True \<lparr>tv_sec = 102, tv_usec = 0\<rparr> 0 0 52
      \<lparr>tv_sec = 102, tv_usec = 0\<rparr> = Inr w'"
    by blast
  note t = reset_timer_armed_iff [OF run_history]
  from t st(1) have "accepted_since_reset ?b (RunLoop 5 60) False history"
    by simp
  moreover from t a st(1) have "reset_timer (state w') =
      Some \<lparr>ev_ptr = 50,
            ev_timeout = \<lparr>tv_sec = 60, tv_usec = 0\<rparr>,
            ev_added = \<lparr>tv_sec = 100, tv_usec = 0\<rparr>\<rparr>"
    by (metis option.distinct(1))
  moreover from t r have "\<exists>w'. step ?b two_connections
     (TimerExpired \<lparr>tv_sec = 160, tv_usec = 0\<rparr>) = Inr w' \<and>
      reset_timer (state w') = None"
    by blast
  moreover have "due \<lparr>ev_ptr = 50, ev_timeout = \<lparr>tv_sec = 60, tv_usec = 0\<rparr>,
        ev_added = \<lparr>tv_sec = 100, tv_usec = 0\<rparr>\<rparr> \<lparr>tv_sec = 160, tv_usec = 0\<rparr>"
    "\<not> due \<lparr>ev_ptr = 50, ev_timeout = \<lparr>tv_sec = 60, tv_usec = 0\<rparr>,
        ev_added = \<lparr>tv_sec = 100, tv_usec = 0\<rparr>\<rparr> \<lparr>tv_sec = 159, tv_usec = 999999\<rparr>"
    by (simp_all add: due_def usecs_def)
  ultimately show ?thesis
    using run_history st(1) r early a by blast
qed

subsection \<open>The scenario of an immediate read\<close>

text \<open>
  Claim C8 says: with \<open>max_seconds = 1\<close>, \<open>max_before_reset = 60\<close> and both draws 0, a
  client that connects receives \<^verbatim>\<open>0.000000 0 0\<close>, and a read that arrives immediately
  afterwards is a timing violation that resets with the output \<^verbatim>\<open>0 / 0\<close>.

  The first half holds. The second does not: with both draws 0 the deadline is the clock
  value of the connect, and \<open>IsReady\<close> accepts a clock that equals the deadline. In the run
  below the read comes with the very clock value of the connect, and it is a tick: the
  score is 1, the client receives \<^verbatim>\<open>0.000000 1 1\<close>, the connection stays, and nothing is
  written to the standard output.
\<close>

theorem immediate_read_counterexample:
  "observe [1] (run \<lparr>DEBUG = False, NDEBUG = False\<rparr> (RunLoop 1 60)
      [Accepted 7 1 True \<lparr>tv_sec = 100, tv_usec = 0\<rparr> 0 0 50
         \<lparr>tv_sec = 100, tv_usec = 0\<rparr>]) =
     Inr (\<lparr>max_seconds = 1, max_before_reset = 60, score = 0, max_score = 0,
            reset_timer =
                Some \<lparr>ev_ptr = 50,
                      ev_timeout = \<lparr>tv_sec = 60, tv_usec = 0\<rparr>,
                      ev_added = \<lparr>tv_sec = 100, tv_usec = 0\<rparr>\<rparr>, sockets = [1]\<rparr>,
          [Some \<lparr>sock_next = \<lparr>tv_sec = 100, tv_usec = 0\<rparr>,
                 sock_buf = Some \<lparr>bev_fd = 7, bev_output = ''0.000000 0 0'' @ [CHR 0x0A],
                                  bev_enabled = True\<rparr>\<rparr>],
          [], False) \<and>
   observe [1] (run \<lparr>DEBUG = False, NDEBUG = False\<rparr> (RunLoop 1 60)
      [Accepted 7 1 True \<lparr>tv_sec = 100, tv_usec = 0\<rparr> 0 0 50
         \<lparr>tv_sec = 100, tv_usec = 0\<rparr>,
       Readable 1 ''a'' \<lparr>tv_sec = 100, tv_usec = 0\<rparr> \<lparr>tv_sec = 100, tv_usec = 0\<rparr> 0 0]) =
     Inr (\<lparr>max_seconds = 1, max_before_reset = 60, score = 1, max_score = 1,
            reset_timer =
                Some \<lparr>ev_ptr = 50,
                      ev_timeout = \<lparr>tv_sec = 60, tv_usec = 0\<rparr>,
                      ev_added = \<lparr>tv_sec = 100, tv_usec = 0\<rparr>\<rparr>, sockets = [1]\<rparr>,
          [Some \<lparr>sock_next = \<lparr>tv_sec = 100, tv_usec = 0\<rparr>,
                 sock_buf = Some \<lparr>bev_fd = 7,
                   bev_output = ''0.000000 0 0'' @ [CHR 0x0A] @ ''0.000000 1 1'' @ [CHR 0x0A],
                   bev_enabled = True\<rparr>\<rparr>],
          [], False)"
  by (simp add: observe_def callback_defs printed)

text \<open>
  Claim C8 as amended. In that scenario the client receives \<^verbatim>\<open>0.000000 0 0\<close> on connect, and
  the deadline is the clock value of the connect. A read of at least one byte whose clock
  is at or after that value is a tick: the score and the maximum become 1, the client
  receives a second status line with the scores \<^verbatim>\<open>1 1\<close>, the connection stays in the set, the timer stays
  armed and nothing is written to the standard output. A read is a violation, with the
  reset and the output \<^verbatim>\<open>0 / 0\<close>, only when its clock is strictly before the clock value of
  the connect.
\<close>

theorem immediate_read_is_tick:
  assumes clk0: "0 \<le> tv_usec t0" "tv_usec t0 < 1000000"
    and clk: "0 \<le> tv_usec tv" "tv_usec tv < 1000000"
    and later: "usecs t0 \<le> usecs tv"
    and zero: "uniform_int_distribution 0 999999 g_usec = 0"
    and rd: "evaluated b input" and ne: "input \<noteq> []"
  shows "\<exists>w1 s1 bev1 w2 s2 bev2.
      run b (RunLoop 1 60) [Accepted fd p True t0 g_sec g_usec ep lt] = Inr w1 \<and>
      heap w1 p = Some s1 \<and> sock_buf s1 = Some bev1 \<and>
      bev_output bev1 = ''0.000000 0 0'' @ [CHR 0x0A] \<and>
      usecs (sock_next s1) = usecs t0 \<and> IsReady s1 tv \<and>
      run b (RunLoop 1 60)
        [Accepted fd p True t0 g_sec g_usec ep lt, Readable p input tv tv' g_sec' g_usec'] = Inr w2 \<and>
      score (state w2) = 1 \<and> max_score (state w2) = 1 \<and> cout w2 = [] \<and>
      sockets (state w2) = [p] \<and> reset_timer (state w2) =
          Some \<lparr>ev_ptr = ep,
                ev_timeout = \<lparr>tv_sec = 60, tv_usec = 0\<rparr>,
                ev_added = lt\<rparr> \<and>
      heap w2 p = Some s2 \<and> sock_buf s2 = Some bev2 \<and>
      bev_output bev2 = ''0.000000 0 0'' @ [CHR 0x0A] @
        status_line 0 (uniform_int_distribution 0 999999 g_usec') 1 1 \<and>
      (\<forall>tv0. 0 \<le> tv_usec tv0 \<and> tv_usec tv0 < 1000000 \<and> usecs tv0 < usecs t0 \<longrightarrow>
         (\<exists>w3. run b (RunLoop 1 60)
                  [Accepted fd p True t0 g_sec g_usec ep lt,
                   Readable p input tv0 tv' g_sec' g_usec'] = Inr w3 \<and>
            cout w3 = ''0 / 0'' @ [CHR 0x0A] \<and> score (state w3) = 0 \<and>
            sockets (state w3) = [] \<and> heap w3 p = None \<and> reset_timer (state w3) = None))"
proof -
  from connect_scenario [OF clk0(1) zero, of b fd p g_sec ep lt]
  obtain nx where nx: "usecs nx = usecs t0" "0 \<le> tv_usec nx" "tv_usec nx < 1000000"
    and a: "step b (RunLoop 1 60) (Accepted fd p True t0 g_sec g_usec ep lt) =
      Inr \<lparr>state = \<lparr>max_seconds = 1, max_before_reset = 60, score = 0, max_score = 0,
                    reset_timer =
                        Some \<lparr>ev_ptr = ep,
                              ev_timeout = \<lparr>tv_sec = 60, tv_usec = 0\<rparr>,
                              ev_added = lt\<rparr>, sockets = [p]\<rparr>,
           heap = (\<lambda>q. None)(p \<mapsto> \<lparr>sock_next = nx,
                    sock_buf = Some \<lparr>bev_fd = fd, bev_output = ''0.000000 0 0'' @ [CHR 0x0A],
                                     bev_enabled = True\<rparr>\<rparr>),
           cout = [], loop_break = False\<rparr>"
    by blast
  define bev1 where
    "bev1 = \<lparr>bev_fd = fd, bev_output = ''0.000000 0 0'' @ [CHR 0x0A], bev_enabled = True\<rparr>"
  define s1 where "s1 = \<lparr>sock_next = nx, sock_buf = Some bev1\<rparr>"
  define w1 where
    "w1 = \<lparr>state = \<lparr>max_seconds = 1, max_before_reset = 60, score = 0, max_score = 0,
                    reset_timer =
                        Some \<lparr>ev_ptr = ep,
                              ev_timeout = \<lparr>tv_sec = 60, tv_usec = 0\<rparr>,
                              ev_added = lt\<rparr>, sockets = [p]\<rparr>,
           heap = (\<lambda>q. None)(p \<mapsto> s1), cout = [], loop_break = False\<rparr>"
  from a have step1: "step b (RunLoop 1 60) (Accepted fd p True t0 g_sec g_usec ep lt) = Inr w1"
    by (simp add: w1_def s1_def bev1_def)
  have h1: "heap w1 p = Some s1" and bv1: "sock_buf s1 = Some bev1"
    and nb1: "\<not> loop_break w1" and ms1: "1 \<le> max_seconds (state w1)"
    and t1: "reset_timer (state w1) =
        Some \<lparr>ev_ptr = ep,
              ev_timeout = \<lparr>tv_sec = 60, tv_usec = 0\<rparr>,
              ev_added = lt\<rparr>"
    by (simp_all add: w1_def s1_def)
  have r: "IsReady s1 tv"
    using IsReady_usecs [of tv s1] clk nx later by (simp add: s1_def)
  \<comment> \<open>the read at or after the connect time\<close>
  let ?w = "w1\<lparr>state := IncreaseScore (state w1)\<rparr>"
  have h': "heap ?w p = Some s1" and ms': "1 \<le> max_seconds (state ?w)"
    by (simp_all add: w1_def IncreaseScore_def Let_def)
  have sec': "uniform_int_distribution 0 (max_seconds (state ?w) - 1) g_sec' = 0"
    by (simp add: w1_def IncreaseScore_def Let_def uniform_int_distribution_def)
  from UpdateTimeout_eq [OF h' bv1 ms', of tv' g_sec' g_usec']
  obtain nx' where u: "UpdateTimeout ?w p tv' g_sec' g_usec' =
      Inr (?w\<lparr>heap := (heap ?w)(p \<mapsto> s1\<lparr>sock_next := nx',
             sock_buf := Some (bev1\<lparr>bev_output := bev_output bev1 @
               status_line 0 (uniform_int_distribution 0 999999 g_usec')
                 (score (state ?w)) (max_score (state ?w))\<rparr>)\<rparr>)\<rparr>)"
    unfolding sec' by blast
  have "step b w1 (Readable p input tv tv' g_sec' g_usec') =
      OnRead b w1 p input tv tv' g_sec' g_usec'"
    using h1 nb1 ne by (simp add: step_def)
  also have "\<dots> = UpdateTimeout ?w p tv' g_sec' g_usec'"
    using h1 r rd by (rule OnRead_tick)
  finally have step2: "step b w1 (Readable p input tv tv' g_sec' g_usec') =
      Inr (?w\<lparr>heap := (heap ?w)(p \<mapsto> s1\<lparr>sock_next := nx',
             sock_buf := Some (bev1\<lparr>bev_output := bev_output bev1 @
               status_line 0 (uniform_int_distribution 0 999999 g_usec')
                 (score (state ?w)) (max_score (state ?w))\<rparr>)\<rparr>)\<rparr>)"
    using u by simp
  \<comment> \<open>a read with the clock before the connect time\<close>
  have viol: "\<exists>w3. run b (RunLoop 1 60)
                  [Accepted fd p True t0 g_sec g_usec ep lt,
                   Readable p input tv0 tv' g_sec' g_usec'] = Inr w3 \<and>
            cout w3 = ''0 / 0'' @ [CHR 0x0A] \<and> score (state w3) = 0 \<and>
            sockets (state w3) = [] \<and> heap w3 p = None \<and> reset_timer (state w3) = None"
    if tv0: "0 \<le> tv_usec tv0 \<and> tv_usec tv0 < 1000000 \<and> usecs tv0 < usecs t0" for tv0
  proof -
    have v: "\<not> IsReady s1 tv0"
      using IsReady_usecs [of tv0 s1] tv0 nx by (simp add: s1_def)
    have l: "\<forall>q\<in>set (sockets (state w1)). live w1 q"
      by (simp add: w1_def s1_def live_def)
    have "step b w1 (Readable p input tv0 tv' g_sec' g_usec') =
        OnRead b w1 p input tv0 tv' g_sec' g_usec'"
      using h1 nb1 ne by (simp add: step_def)
    also have "\<dots> = CloseAllSockets w1"
      using h1 v rd by (rule OnRead_violation)
    finally show ?thesis
      using step1 CloseAllSockets_eq [OF l t1]
      by (simp add: printed_scores) (simp add: w1_def printed_scores)
  qed
  show ?thesis
    using step1 step2 h1 bv1 r nx(1) viol
    by (simp add: IncreaseScore_def Let_def) (simp add: w1_def s1_def bev1_def)
qed

theorem immediate_read_is_tick_witness:
  "0 \<le> tv_usec \<lparr>tv_sec = 100, tv_usec = 0\<rparr> \<and>
   tv_usec \<lparr>tv_sec = 100, tv_usec = 0\<rparr> < 1000000 \<and>
   usecs \<lparr>tv_sec = 100, tv_usec = 0\<rparr> \<le> usecs \<lparr>tv_sec = 100, tv_usec = 0\<rparr> \<and>
   uniform_int_distribution 0 999999 0 = 0 \<and>
   (\<exists>w1 s1 bev1 w2 s2 bev2.
      run \<lparr>DEBUG = False, NDEBUG = False\<rparr> (RunLoop 1 60)
        [Accepted 7 1 True \<lparr>tv_sec = 100, tv_usec = 0\<rparr> 0 0 50
         \<lparr>tv_sec = 100, tv_usec = 0\<rparr>] = Inr w1 \<and>
      heap w1 1 = Some s1 \<and> sock_buf s1 = Some bev1 \<and>
      bev_output bev1 = ''0.000000 0 0'' @ [CHR 0x0A] \<and>
      IsReady s1 \<lparr>tv_sec = 100, tv_usec = 0\<rparr> \<and>
      run \<lparr>DEBUG = False, NDEBUG = False\<rparr> (RunLoop 1 60)
        [Accepted 7 1 True \<lparr>tv_sec = 100, tv_usec = 0\<rparr> 0 0 50
         \<lparr>tv_sec = 100, tv_usec = 0\<rparr>,
         Readable 1 ''a'' \<lparr>tv_sec = 100, tv_usec = 0\<rparr> \<lparr>tv_sec = 100, tv_usec = 0\<rparr> 0 0] = Inr w2 \<and>
      score (state w2) = 1 \<and> max_score (state w2) = 1 \<and> cout w2 = [] \<and>
      sockets (state w2) = [1] \<and>
      heap w2 1 = Some s2 \<and> sock_buf s2 = Some bev2 \<and>
      bev_output bev2 = ''0.000000 0 0'' @ [CHR 0x0A] @ ''0.000000 1 1'' @ [CHR 0x0A]) \<and>
   usecs \<lparr>tv_sec = 99, tv_usec = 999999\<rparr> < usecs \<lparr>tv_sec = 100, tv_usec = 0\<rparr> \<and>
   (\<exists>w3. run \<lparr>DEBUG = False, NDEBUG = False\<rparr> (RunLoop 1 60)
        [Accepted 7 1 True \<lparr>tv_sec = 100, tv_usec = 0\<rparr> 0 0 50
         \<lparr>tv_sec = 100, tv_usec = 0\<rparr>,
         Readable 1 ''a'' \<lparr>tv_sec = 99, tv_usec = 999999\<rparr> \<lparr>tv_sec = 100, tv_usec = 0\<rparr> 0 0] = Inr w3 \<and>
      cout w3 = ''0 / 0'' @ [CHR 0x0A] \<and> score (state w3) = 0 \<and>
      sockets (state w3) = [] \<and> heap w3 1 = None \<and> reset_timer (state w3) = None)"
proof -
  let ?b = "\<lparr>DEBUG = False, NDEBUG = False\<rparr>"
  let ?t0 = "\<lparr>tv_sec = 100, tv_usec = 0\<rparr>"
  let ?early = "\<lparr>tv_sec = 99, tv_usec = 999999\<rparr>"
  have clk: "0 \<le> tv_usec ?t0" "tv_usec ?t0 < 1000000"
    by simp_all
  have later: "usecs ?t0 \<le> usecs ?t0"
    by simp
  have zero: "uniform_int_distribution 0 999999 0 = 0"
    by (simp add: uniform_int_distribution_def)
  have rd: "evaluated ?b ''a''"
    by (simp add: evaluated_def)
  have early: "0 \<le> tv_usec ?early \<and> tv_usec ?early < 1000000 \<and> usecs ?early < usecs ?t0"
    by (simp add: usecs_def)
  have ne: "''a'' \<noteq> []"
    by simp
  note t = immediate_read_is_tick [OF clk clk later zero rd ne, of 7 1 0 50 ?t0 ?t0 0 0]
  from t obtain w1 s1 bev1 w2 s2 bev2 where
    f: "run ?b (RunLoop 1 60) [Accepted 7 1 True ?t0 0 0 50 ?t0] = Inr w1"
      "heap w1 1 = Some s1" "sock_buf s1 = Some bev1"
      "bev_output bev1 = ''0.000000 0 0'' @ [CHR 0x0A]" "IsReady s1 ?t0"
      "run ?b (RunLoop 1 60) [Accepted 7 1 True ?t0 0 0 50 ?t0, Readable 1 ''a'' ?t0 ?t0 0 0] = Inr w2"
      "score (state w2) = 1" "max_score (state w2) = 1" "cout w2 = []"
      "sockets (state w2) = [1]" "heap w2 1 = Some s2" "sock_buf s2 = Some bev2"
      "bev_output bev2 = ''0.000000 0 0'' @ [CHR 0x0A] @
         status_line 0 (uniform_int_distribution 0 999999 0) 1 1"
    and v: "\<forall>tv0. 0 \<le> tv_usec tv0 \<and> tv_usec tv0 < 1000000 \<and> usecs tv0 < usecs ?t0 \<longrightarrow>
         (\<exists>w3. run ?b (RunLoop 1 60)
                  [Accepted 7 1 True ?t0 0 0 50 ?t0, Readable 1 ''a'' tv0 ?t0 0 0] = Inr w3 \<and>
            cout w3 = ''0 / 0'' @ [CHR 0x0A] \<and> score (state w3) = 0 \<and>
            sockets (state w3) = [] \<and> heap w3 1 = None \<and> reset_timer (state w3) = None)"
    by blast
  from v early have "\<exists>w3. run ?b (RunLoop 1 60)
                  [Accepted 7 1 True ?t0 0 0 50 ?t0, Readable 1 ''a'' ?early ?t0 0 0] = Inr w3 \<and>
            cout w3 = ''0 / 0'' @ [CHR 0x0A] \<and> score (state w3) = 0 \<and>
            sockets (state w3) = [] \<and> heap w3 1 = None \<and> reset_timer (state w3) = None"
    by blast
  moreover from f(13) have "bev_output bev2 =
      ''0.000000 0 0'' @ [CHR 0x0A] @ ''0.000000 1 1'' @ [CHR 0x0A]"
    by (simp add: zero printed(2))
  ultimately show ?thesis
    using clk later zero early f(1-12) by blast
qed

subsection \<open>A read of zero bytes\<close>

text \<open>
  Claim C9. In every state the loop can reach, when the socket of a connection is readable
  and the read returns zero bytes, the loop does not run \<open>OnRead\<close>: it runs \<open>OnEvent\<close> with
  the flags of the end of the stream, among which the error flag is not. The outcome is
  the outcome of a close by the peer, and of every event with the flag
  \<^verbatim>\<open>BEV_EVENT_EOF\<close> or \<^verbatim>\<open>BEV_EVENT_ERROR\<close>: the destructor runs on that connection, which
  leaves the free store and the set, while every other connection, the score, the
  maximum, the timer and the standard output are as before. The step is no tick and no
  violation: the score has not changed and the reset coordinator has not run. \<open>OnRead\<close>
  says the same of itself: built without \<^verbatim>\<open>DEBUG\<close> and \<^verbatim>\<open>NDEBUG\<close>, it asserts that it has
  read at least one byte before it looks at the deadline.
\<close>

theorem zero_byte_read_is_peer_close:
  assumes reach: "run b (RunLoop timeout max_timeout) evs = Inr w"
    and h: "heap w sock = Some s"
  shows "\<exists>w'. step b w (Readable sock [] tv tv' g_sec g_usec) = Inr w' \<and>
      step b w (Readable sock [] tv tv' g_sec g_usec) =
        OnEvent w (BEV_EVENT_READING OR BEV_EVENT_EOF) sock \<and>
      (BEV_EVENT_READING OR BEV_EVENT_EOF) AND BEV_EVENT_ERROR = 0 \<and>
      (\<forall>events. events AND (BEV_EVENT_ERROR OR BEV_EVENT_EOF) \<noteq> 0 \<longrightarrow>
         step b w (Flagged sock events) = Inr w') \<and>
      Socket_dtor w sock = Inr w' \<and>
      heap w' sock = None \<and> (\<forall>p. p \<noteq> sock \<longrightarrow> heap w' p = heap w p) \<and>
      sockets (state w') = removeAll sock (sockets (state w)) \<and>
      score (state w') = score (state w) \<and> max_score (state w') = max_score (state w) \<and>
      reset_timer (state w') = reset_timer (state w) \<and>
      cout w' = cout w \<and> loop_break w' = loop_break w \<and>
      \<not> resets b w (Readable sock [] tv tv' g_sec g_usec) \<and>
      (\<not> DEBUG b \<and> \<not> NDEBUG b \<longrightarrow>
         OnRead b w sock [] tv tv' g_sec g_usec = Inl AssertionFailed)"
proof -
  from reach have c: "consistent w"
    by (rule consistent_run)
  from h have ne: "heap w sock \<noteq> None"
    by simp
  with c have nb: "\<not> loop_break w"
    by (auto simp: consistent_def)
  from c h have "live w sock"
    by (auto simp: consistent_def live_def)
  note d = Socket_dtor_live [OF this]
  have eof: "(BEV_EVENT_READING OR BEV_EVENT_EOF) AND (BEV_EVENT_ERROR OR BEV_EVENT_EOF) \<noteq> 0"
    "(BEV_EVENT_READING OR BEV_EVENT_EOF) AND BEV_EVENT_ERROR = 0"
    by (simp_all add: BEV_EVENT_READING_def BEV_EVENT_EOF_def BEV_EVENT_ERROR_def)
  have r: "\<not> resets b w (Readable sock [] tv tv' g_sec g_usec)"
    using h by (simp add: resets_def)
  have s1: "step b w (Readable sock [] tv tv' g_sec g_usec) =
      OnEvent w (BEV_EVENT_READING OR BEV_EVENT_EOF) sock"
    using nb h by (simp add: step_def)
  have s2: "OnEvent w (BEV_EVENT_READING OR BEV_EVENT_EOF) sock = Socket_dtor w sock"
    using eof(1) by (simp add: OnEvent_def)
  have s3: "step b w (Flagged sock events) = Socket_dtor w sock"
    if "events AND (BEV_EVENT_ERROR OR BEV_EVENT_EOF) \<noteq> 0" for events
    using nb h that by (simp add: step_def OnEvent_def)
  have s4: "OnRead b w sock [] tv tv' g_sec g_usec = Inl AssertionFailed"
    if "\<not> DEBUG b \<and> \<not> NDEBUG b"
    using h that by (simp add: OnRead_def)
  show ?thesis
    using r eof(2) s3 s4 by (simp add: s1 s2 d)
qed

theorem zero_byte_read_is_peer_close_witness:
  "run \<lparr>DEBUG = False, NDEBUG = False\<rparr> (RunLoop 5 60) history = Inr two_connections \<and>
   heap two_connections 1 =
     Some \<lparr>sock_next = \<lparr>tv_sec = 100, tv_usec = 0\<rparr>,
           sock_buf = Some \<lparr>bev_fd = 7, bev_output = ''0.000000 0 1'' @ [CHR 0x0A],
                            bev_enabled = True\<rparr>\<rparr> \<and>
   BEV_EVENT_EOF AND (BEV_EVENT_ERROR OR BEV_EVENT_EOF) \<noteq> 0 \<and>
   BEV_EVENT_ERROR AND (BEV_EVENT_ERROR OR BEV_EVENT_EOF) \<noteq> 0 \<and>
   (\<exists>w'. step \<lparr>DEBUG = False, NDEBUG = False\<rparr> two_connections
            (Readable 1 [] \<lparr>tv_sec = 100, tv_usec = 500000\<rparr>
               \<lparr>tv_sec = 100, tv_usec = 500000\<rparr> 0 0) = Inr w' \<and>
      step \<lparr>DEBUG = False, NDEBUG = False\<rparr> two_connections (Flagged 1 BEV_EVENT_EOF) = Inr w' \<and>
      step \<lparr>DEBUG = False, NDEBUG = False\<rparr> two_connections (Flagged 1 BEV_EVENT_ERROR) = Inr w' \<and>
      heap w' 1 = None \<and> heap w' 2 = heap two_connections 2 \<and>
      sockets (state w') = [2] \<and> score (state w') = 0 \<and> max_score (state w') = 1 \<and>
      reset_timer (state w') = reset_timer (state two_connections) \<and>
      cout w' = ''1 / 1'' @ [CHR 0x0A]) \<and>
   OnRead \<lparr>DEBUG = False, NDEBUG = False\<rparr> two_connections 1 []
     \<lparr>tv_sec = 100, tv_usec = 500000\<rparr> \<lparr>tv_sec = 100, tv_usec = 500000\<rparr> 0 0 =
     Inl AssertionFailed"
proof -
  let ?b = "\<lparr>DEBUG = False, NDEBUG = False\<rparr>"
  let ?tv = "\<lparr>tv_sec = 100, tv_usec = 500000\<rparr>"
  let ?bev = "\<lparr>bev_fd = 7, bev_output = ''0.000000 0 1'' @ [CHR 0x0A], bev_enabled = True\<rparr>"
  let ?s = "\<lparr>sock_next = \<lparr>tv_sec = 100, tv_usec = 0\<rparr>, sock_buf = Some ?bev\<rparr>"
  have h: "heap two_connections 1 = Some ?s"
    by (simp add: two_connections_def)
  have fl: "BEV_EVENT_EOF AND (BEV_EVENT_ERROR OR BEV_EVENT_EOF) \<noteq> 0"
    "BEV_EVENT_ERROR AND (BEV_EVENT_ERROR OR BEV_EVENT_EOF) \<noteq> 0"
    by (simp_all add: BEV_EVENT_EOF_def BEV_EVENT_ERROR_def)
  have st: "removeAll 1 (sockets (state two_connections)) = [2]"
    "score (state two_connections) = 0" "max_score (state two_connections) = 1"
    "cout two_connections = ''1 / 1'' @ [CHR 0x0A]"
    by (simp_all add: two_connections_def)
  have bd: "\<not> DEBUG ?b \<and> \<not> NDEBUG ?b"
    by simp
  from zero_byte_read_is_peer_close [OF run_history h, of ?tv ?tv 0 0]
  obtain w' where
    f: "step ?b two_connections (Readable 1 [] ?tv ?tv 0 0) = Inr w'"
      "\<forall>events. events AND (BEV_EVENT_ERROR OR BEV_EVENT_EOF) \<noteq> 0 \<longrightarrow>
         step ?b two_connections (Flagged 1 events) = Inr w'"
      "heap w' 1 = None" "\<forall>p. p \<noteq> 1 \<longrightarrow> heap w' p = heap two_connections p"
      "sockets (state w') = removeAll 1 (sockets (state two_connections))"
      "score (state w') = score (state two_connections)"
      "max_score (state w') = max_score (state two_connections)"
      "reset_timer (state w') = reset_timer (state two_connections)"
      "cout w' = cout two_connections"
    and a: "\<not> DEBUG ?b \<and> \<not> NDEBUG ?b \<longrightarrow>
         OnRead ?b two_connections 1 [] ?tv ?tv 0 0 = Inl AssertionFailed"
    by blast
  from f(4) have "heap w' 2 = heap two_connections 2"
    by simp
  moreover from f(2) fl have "step ?b two_connections (Flagged 1 BEV_EVENT_EOF) = Inr w'"
    "step ?b two_connections (Flagged 1 BEV_EVENT_ERROR) = Inr w'"
    by blast+
  moreover from a bd have "OnRead ?b two_connections 1 [] ?tv ?tv 0 0 = Inl AssertionFailed"
    by blast
  ultimately show ?thesis
    using run_history h fl f(1,3,5-9) unfolding st by blast
qed

end
